theory Spec2Isabelle
  imports Complex_Main "HOL-Library.Sublist"
begin

section \<open>RealityFixer: the annotation overlay and the diagnosis sanitiser\<close>

text \<open>
  The development embeds two source files: \<^verbatim>\<open>src/components/AnnotationCanvas.tsx\<close>
  (the render pass of the annotation overlay, with its helpers \<^verbatim>\<open>drawLabel\<close> and
  \<^verbatim>\<open>drawArrow\<close>) and the Gemini client (\<^verbatim>\<open>analyzeImage\<close>), with the data model of
  \<^verbatim>\<open>src/types.ts\<close>.

  Numbers. A JavaScript \<^verbatim>\<open>number\<close> is modelled as a \<^typ>\<open>real\<close>: arithmetic is exact,
  there is no rounding, no NaN and no infinity. Every statement below is a statement of
  exact arithmetic about the expressions the code evaluates. The code evaluates them in
  binary64, where each operation rounds. The rounding is modelled for the coordinate
  mapping (\<open>round64\<close> and \<open>toPixel64\<close> below), where a claim speaks of exact equality;
  elsewhere a statement gives the expression that the code evaluates, read in exact
  arithmetic. The products of a coordinate and a scale factor in the examples (such as
  \<open>200 * (800 / 1000) = 160\<close>, lemma \<open>round64_product_800\<close>) have the same value in
  binary64.
\<close>

subsection \<open>Data model (\<^verbatim>\<open>types.ts\<close>)\<close>

text \<open>
  \<^verbatim>\<open>Annotation\<close>. The tag \<^verbatim>\<open>type\<close> is kept as a string: the values arrive from parsed
  JSON behind an unchecked cast, and the render pass has a default branch for tags outside
  the four of the declaration. An optional field is an \<^typ>\<open>'a option\<close>. The field
  \<^verbatim>\<open>end\<close> is called \<open>endp\<close> (\<open>end\<close> is reserved).
\<close>

record annotation =
  type :: string
  start :: "real list option"
  endp :: "real list option"
  center :: "real list option"
  radius :: "real option"
  box_2d :: "real list option"
  label :: string

subsection \<open>The 2D drawing context\<close>

text \<open>
  The part of \<^verbatim>\<open>CanvasRenderingContext2D\<close> the component uses. The context has its
  drawing attributes, the current path, the size of its canvas and the surface. The surface
  is the sequence of drawing calls painted since it was last empty, each with the attributes
  it was painted with; order matters, later calls paint over earlier ones.
\<close>

datatype segment =
    MoveTo real real
  | LineTo real real
  | Arc real real real real real

datatype shape =
    Rect real real real real
  | Path "segment list"
  | Text string real real

record brush =
  ink :: string
  thickness :: real
  shadow :: string
  blur :: real
  typeface :: string

datatype drawing =
    Stroke shape brush
  | Fill shape brush
  | Clear real real real real

record ctx2d =
  strokeStyle :: string
  fillStyle :: string
  lineWidth :: real
  shadowColor :: string
  shadowBlur :: real
  font :: string
  path :: "segment list"
  canvasWidth :: real
  canvasHeight :: real
  surface :: "drawing list"

datatype error =
    IndexSizeError
  | TypeError
  | SyntaxError
  | NoTextResponse
  | ApiFailure string

datatype outcome = Completed | Threw error

text \<open>Text metrics: the width of a text in a font (\<^verbatim>\<open>ctx.measureText(text).width\<close>).\<close>

type_synonym metrics = "string \<Rightarrow> string \<Rightarrow> real"

definition strokeBrush :: "ctx2d \<Rightarrow> brush" where
  "strokeBrush ctx =
     \<lparr>ink = strokeStyle ctx, thickness = lineWidth ctx, shadow = shadowColor ctx,
      blur = shadowBlur ctx, typeface = font ctx\<rparr>"

definition fillBrush :: "ctx2d \<Rightarrow> brush" where
  "fillBrush ctx =
     \<lparr>ink = fillStyle ctx, thickness = lineWidth ctx, shadow = shadowColor ctx,
      blur = shadowBlur ctx, typeface = font ctx\<rparr>"

text \<open>
  \<^verbatim>\<open>clearRect\<close> erases a rectangle. When the rectangle covers the whole canvas nothing
  painted before remains and the surface is empty again; otherwise the call is recorded.
\<close>

definition covers :: "real \<Rightarrow> real \<Rightarrow> real \<Rightarrow> real \<Rightarrow> ctx2d \<Rightarrow> bool" where
  "covers x y w h ctx \<longleftrightarrow>
     min x (x + w) \<le> 0 \<and> canvasWidth ctx \<le> max x (x + w) \<and>
     min y (y + h) \<le> 0 \<and> canvasHeight ctx \<le> max y (y + h)"

definition clearRect :: "real \<Rightarrow> real \<Rightarrow> real \<Rightarrow> real \<Rightarrow> ctx2d \<Rightarrow> ctx2d" where
  "clearRect x y w h ctx =
     (if covers x y w h ctx then ctx\<lparr>surface := []\<rparr>
      else ctx\<lparr>surface := surface ctx @ [Clear x y w h]\<rparr>)"

definition strokeRect :: "real \<Rightarrow> real \<Rightarrow> real \<Rightarrow> real \<Rightarrow> ctx2d \<Rightarrow> ctx2d" where
  "strokeRect x y w h ctx =
     ctx\<lparr>surface := surface ctx @ [Stroke (Rect x y w h) (strokeBrush ctx)]\<rparr>"

definition fillRect :: "real \<Rightarrow> real \<Rightarrow> real \<Rightarrow> real \<Rightarrow> ctx2d \<Rightarrow> ctx2d" where
  "fillRect x y w h ctx =
     ctx\<lparr>surface := surface ctx @ [Fill (Rect x y w h) (fillBrush ctx)]\<rparr>"

definition fillText :: "string \<Rightarrow> real \<Rightarrow> real \<Rightarrow> ctx2d \<Rightarrow> ctx2d" where
  "fillText text x y ctx =
     ctx\<lparr>surface := surface ctx @ [Fill (Text text x y) (fillBrush ctx)]\<rparr>"

definition beginPath :: "ctx2d \<Rightarrow> ctx2d" where
  "beginPath ctx = ctx\<lparr>path := []\<rparr>"

definition moveTo :: "real \<Rightarrow> real \<Rightarrow> ctx2d \<Rightarrow> ctx2d" where
  "moveTo x y ctx = ctx\<lparr>path := path ctx @ [MoveTo x y]\<rparr>"

definition lineTo :: "real \<Rightarrow> real \<Rightarrow> ctx2d \<Rightarrow> ctx2d" where
  "lineTo x y ctx = ctx\<lparr>path := path ctx @ [LineTo x y]\<rparr>"

text \<open>
  \<^verbatim>\<open>arc\<close> is the one call of the component that can raise: the Canvas API throws an
  \<^verbatim>\<open>IndexSizeError\<close> when the radius is negative, and the context is left as it was.
\<close>

definition arc :: "real \<Rightarrow> real \<Rightarrow> real \<Rightarrow> real \<Rightarrow> real \<Rightarrow> ctx2d \<Rightarrow> error + ctx2d" where
  "arc x y r startAngle endAngle ctx =
     (if r < 0 then Inl IndexSizeError
      else Inr (ctx\<lparr>path := path ctx @ [Arc x y r startAngle endAngle]\<rparr>))"

definition stroke :: "ctx2d \<Rightarrow> ctx2d" where
  "stroke ctx = ctx\<lparr>surface := surface ctx @ [Stroke (Path (path ctx)) (strokeBrush ctx)]\<rparr>"

definition fill :: "ctx2d \<Rightarrow> ctx2d" where
  "fill ctx = ctx\<lparr>surface := surface ctx @ [Fill (Path (path ctx)) (fillBrush ctx)]\<rparr>"

subsection \<open>\<^verbatim>\<open>Math.atan2\<close>\<close>

text \<open>
  The angle of the point \<open>(x, y)\<close> in \<open>(-\<pi>, \<pi>]\<close>, with \<^verbatim>\<open>Math.atan2(0, 0) = 0\<close>.
\<close>

definition atan2 :: "real \<Rightarrow> real \<Rightarrow> real" where
  "atan2 y x =
     (if 0 < x then arctan (y / x)
      else if x < 0 then (if 0 \<le> y then arctan (y / x) + pi else arctan (y / x) - pi)
      else if 0 < y then pi / 2
      else if y < 0 then - (pi / 2)
      else 0)"

subsection \<open>\<^verbatim>\<open>AnnotationCanvas.tsx\<close>\<close>

definition scaleX :: "real \<Rightarrow> real" where
  "scaleX width = width / 1000"

definition scaleY :: "real \<Rightarrow> real" where
  "scaleY height = height / 1000"

text \<open>\<^verbatim>\<open>drawLabel\<close> (lines 95 to 104).\<close>

definition drawLabel :: "metrics \<Rightarrow> string \<Rightarrow> real \<Rightarrow> real \<Rightarrow> string \<Rightarrow> ctx2d \<Rightarrow> ctx2d" where
  "drawLabel tm text x y color ctx =
     (let padding = 6;
          textWidth = tm (font ctx) text;
          ctx = ctx\<lparr>fillStyle := ''rgba(0,0,0,0.8)''\<rparr>;
          ctx = fillRect (x - padding) (y - 14 - padding) (textWidth + padding * 2) 24 ctx;
          ctx = ctx\<lparr>fillStyle := color\<rparr>
      in fillText text x y ctx)"

text \<open>\<^verbatim>\<open>drawArrow\<close> (lines 106 to 122).\<close>

definition drawArrow :: "real \<Rightarrow> real \<Rightarrow> real \<Rightarrow> real \<Rightarrow> ctx2d \<Rightarrow> ctx2d" where
  "drawArrow x1 y1 x2 y2 ctx =
     (let headLength = 15;
          angle = atan2 (y2 - y1) (x2 - x1);
          ctx = beginPath ctx;
          ctx = moveTo x1 y1 ctx;
          ctx = lineTo x2 y2 ctx;
          ctx = stroke ctx;
          ctx = beginPath ctx;
          ctx = moveTo x2 y2 ctx;
          ctx = lineTo (x2 - headLength * cos (angle - pi / 6))
                       (y2 - headLength * sin (angle - pi / 6)) ctx;
          ctx = lineTo (x2 - headLength * cos (angle + pi / 6))
                       (y2 - headLength * sin (angle + pi / 6)) ctx;
          ctx = lineTo x2 y2 ctx
      in fill ctx)"

text \<open>The colour chain of lines 37 to 41: four independent tests, the last match wins.\<close>

definition typeColor :: "string \<Rightarrow> string" where
  "typeColor t =
     (let color = ''#3b82f6'';
          color = (if t = ''circle'' then ''#ef4444'' else color);
          color = (if t = ''arrow'' then ''#eab308'' else color);
          color = (if t = ''box'' then ''#22c55e'' else color);
          color = (if t = ''highlight'' then ''#f97316'' else color)
      in color)"

text \<open>\<^verbatim>\<open>ann.radius || 50\<close>: an absent radius and the radius 0 are falsy.\<close>

definition radiusOr :: "real option \<Rightarrow> real \<Rightarrow> real" where
  "radiusOr r d = (case r of None \<Rightarrow> d | Some v \<Rightarrow> if v = 0 then d else v)"

text \<open>
  The body of the \<^verbatim>\<open>forEach\<close> callback (lines 36 to 90), for one annotation. The guard
  \<^verbatim>\<open>ann.box_2d && ann.box_2d.length === 4\<close> is the case \<open>Some b\<close> with \<open>length b = 4\<close>,
  and likewise for the other fields.
\<close>

definition renderAnnotation ::
    "metrics \<Rightarrow> real \<Rightarrow> real \<Rightarrow> annotation \<Rightarrow> ctx2d \<Rightarrow> outcome \<times> ctx2d" where
  "renderAnnotation tm sx sy ann ctx0 =
     (let color = typeColor (type ann);
          ctx = ctx0\<lparr>strokeStyle := color, fillStyle := color\<rparr>
      in
      if type ann = ''box'' \<or> type ann = ''highlight'' then
        (case box_2d ann of
           Some b \<Rightarrow>
             if length b = 4 then
               (let ymin = b ! 0; xmin = b ! 1; ymax = b ! 2; xmax = b ! 3;
                    y = ymin * sy;
                    x = xmin * sx;
                    h = (ymax - ymin) * sy;
                    w = (xmax - xmin) * sx;
                    ctx = (if type ann = ''highlight''
                           then strokeRect x y w h
                                  (fillRect x y w h (ctx\<lparr>fillStyle := color @ ''40''\<rparr>))
                           else strokeRect x y w h ctx)
                in (Completed, drawLabel tm (label ann) x (y - 10) color ctx))
             else (Completed, ctx)
         | None \<Rightarrow> (Completed, ctx))
      else if type ann = ''circle'' then
        (case center ann of
           Some c \<Rightarrow>
             if length c = 2 then
               (let cx = c ! 0 * sx;
                    cy = c ! 1 * sy;
                    r = radiusOr (radius ann) 50 * sx;
                    ctx = beginPath ctx
                in case arc cx cy r 0 (2 * pi) ctx of
                     Inl e \<Rightarrow> (Threw e, ctx)
                   | Inr ctx \<Rightarrow>
                       (Completed,
                        drawLabel tm (label ann) (cx - 20) (cy - r - 10) color (stroke ctx)))
             else (Completed, ctx)
         | None \<Rightarrow> (Completed, ctx))
      else if type ann = ''arrow'' then
        (case (start ann, endp ann) of
           (Some s, Some e) \<Rightarrow>
             if length s = 2 \<and> length e = 2 then
               (let x1 = s ! 0 * sx;
                    y1 = s ! 1 * sy;
                    x2 = e ! 0 * sx;
                    y2 = e ! 1 * sy;
                    ctx = drawArrow x1 y1 x2 y2 ctx
                in (Completed, drawLabel tm (label ann) x1 (y1 - 20) color ctx))
             else (Completed, ctx)
         | _ \<Rightarrow> (Completed, ctx))
      else (Completed, ctx))"

text \<open>
  \<^verbatim>\<open>annotations.forEach\<close>: the callback runs on each element in array order; an exception
  leaves the loop, with the context as it was when it was raised.
\<close>

fun forEach ::
    "(annotation \<Rightarrow> ctx2d \<Rightarrow> outcome \<times> ctx2d) \<Rightarrow> annotation list \<Rightarrow> ctx2d \<Rightarrow> outcome \<times> ctx2d" where
  "forEach f [] ctx = (Completed, ctx)"
| "forEach f (a # as) ctx =
     (case f a ctx of
        (Completed, ctx') \<Rightarrow> forEach f as ctx'
      | (Threw e, ctx') \<Rightarrow> (Threw e, ctx'))"

text \<open>
  The render pass on an acquired context (lines 19 to 91). The property \<^verbatim>\<open>annotations\<close>
  is \<open>None\<close> when the value is absent or not an array (the defensive check of line 33).
\<close>

definition renderPass ::
    "metrics \<Rightarrow> real \<Rightarrow> real \<Rightarrow> annotation list option \<Rightarrow> ctx2d \<Rightarrow> outcome \<times> ctx2d" where
  "renderPass tm width height annotations ctx0 =
     (let ctx = clearRect 0 0 width height ctx0;
          sx = scaleX width;
          sy = scaleY height;
          ctx = ctx\<lparr>lineWidth := 3\<rparr>;
          ctx = ctx\<lparr>shadowColor := ''rgba(0,0,0,0.8)''\<rparr>;
          ctx = ctx\<lparr>shadowBlur := 4\<rparr>;
          ctx = ctx\<lparr>font := ''bold 14px Inter, sans-serif''\<rparr>
      in case annotations of
           None \<Rightarrow> (Completed, ctx)
         | Some anns \<Rightarrow> forEach (renderAnnotation tm sx sy) anns ctx)"

text \<open>
  The effect (lines 13 to 92): the canvas element may not be mounted
  (\<^verbatim>\<open>canvasRef.current\<close> is null) and \<^verbatim>\<open>getContext('2d')\<close> may return null; both
  return before anything is drawn.
\<close>

datatype canvas = Canvas (getContext: "ctx2d option")

definition renderEffect ::
    "metrics \<Rightarrow> real \<Rightarrow> real \<Rightarrow> annotation list option \<Rightarrow> canvas option
       \<Rightarrow> outcome \<times> canvas option" where
  "renderEffect tm width height annotations canvasRef =
     (case canvasRef of
        None \<Rightarrow> (Completed, None)
      | Some cv \<Rightarrow>
          (case getContext cv of
             None \<Rightarrow> (Completed, Some cv)
           | Some ctx \<Rightarrow>
               (case renderPass tm width height annotations ctx of
                  (out, ctx') \<Rightarrow> (out, Some (Canvas (Some ctx'))))))"

subsection \<open>The Gemini client: \<^verbatim>\<open>analyzeImage\<close>\<close>

text \<open>
  A value produced by \<^verbatim>\<open>JSON.parse\<close>. An object keeps its members in the order of
  the text; when a key occurs twice the last occurrence is the property's value.
\<close>

datatype json =
    JNull
  | JBool bool
  | JNumber real
  | JString string
  | JArray "json list"
  | JObject "(string \<times> json) list"

text \<open>
  A property read \<^verbatim>\<open>parsed.key\<close> on a value that is not \<^verbatim>\<open>null\<close>: \<open>None\<close> is
  \<^verbatim>\<open>undefined\<close>. Only an object has the properties read here; a number, a boolean, a
  string and an array give \<^verbatim>\<open>undefined\<close> for each of these keys.
\<close>

definition getProp :: "json \<Rightarrow> string \<Rightarrow> json option" where
  "getProp v k = (case v of JObject kvs \<Rightarrow> map_of (rev kvs) k | _ \<Rightarrow> None)"

text \<open>JavaScript truthiness of a parsed value or \<^verbatim>\<open>undefined\<close>.\<close>

fun truthy :: "json option \<Rightarrow> bool" where
  "truthy None = False"
| "truthy (Some JNull) = False"
| "truthy (Some (JBool b)) = b"
| "truthy (Some (JNumber n)) = (n \<noteq> 0)"
| "truthy (Some (JString s)) = (s \<noteq> [])"
| "truthy (Some (JArray xs)) = True"
| "truthy (Some (JObject kvs)) = True"

text \<open>\<^verbatim>\<open>v || d\<close> with a default that is a string literal.\<close>

definition orDefault :: "json option \<Rightarrow> string \<Rightarrow> json" where
  "orDefault v d = (case v of Some x \<Rightarrow> if truthy v then x else JString d | None \<Rightarrow> JString d)"

fun isArray :: "json option \<Rightarrow> bool" where
  "isArray (Some (JArray xs)) = True"
| "isArray _ = False"

text \<open>\<^verbatim>\<open>Array.isArray(v) ? v : []\<close>.\<close>

definition arrayOrEmpty :: "json option \<Rightarrow> json" where
  "arrayOrEmpty v = (case v of Some x \<Rightarrow> if isArray v then x else JArray [] | None \<Rightarrow> JArray [])"

text \<open>
  \<^verbatim>\<open>DiagnosisResponse\<close>. The object literal is cast with \<^verbatim>\<open>as DiagnosisResponse\<close>,
  which checks nothing at run time, so each field holds a parsed value.
\<close>

record DiagnosisResponse =
  object_detected :: json
  issue_detected :: json
  confidence :: json
  safety_warnings :: json
  tools_required :: json
  household_tool_alternatives :: json
  steps :: json
  annotations :: json
  camera_guidance :: json
  cause_explanation :: json
  prevention_tips :: json

text \<open>
  The sanitisation of lines 118 to 130. Reading a property of \<^verbatim>\<open>null\<close> throws a
  \<^verbatim>\<open>TypeError\<close> at the first field; on any other value no read throws.
\<close>

definition sanitize :: "json \<Rightarrow> error + DiagnosisResponse" where
  "sanitize parsed =
     (case parsed of
        JNull \<Rightarrow> Inl TypeError
      | _ \<Rightarrow> Inr
          \<lparr>object_detected = orDefault (getProp parsed ''object_detected'') ''Unknown Object'',
           issue_detected = orDefault (getProp parsed ''issue_detected'') ''Analysis Pending'',
           confidence = orDefault (getProp parsed ''confidence'') ''Unknown'',
           safety_warnings = arrayOrEmpty (getProp parsed ''safety_warnings''),
           tools_required = arrayOrEmpty (getProp parsed ''tools_required''),
           household_tool_alternatives =
             arrayOrEmpty (getProp parsed ''household_tool_alternatives''),
           steps = arrayOrEmpty (getProp parsed ''steps''),
           annotations = arrayOrEmpty (getProp parsed ''annotations''),
           camera_guidance = orDefault (getProp parsed ''camera_guidance'') ''None'',
           cause_explanation =
             orDefault (getProp parsed ''cause_explanation'') ''No explanation provided.'',
           prevention_tips = orDefault (getProp parsed ''prevention_tips'') ''No specific tips.''\<rparr>)"

text \<open>
  \<^verbatim>\<open>base64Image.replace(/^data:image\/\w+;base64,/, "")\<close>: a leading data-URL header is
  removed. \<^verbatim>\<open>\w+\<close> is a non-empty run of letters, digits and underscores; the character
  after the run must start \<^verbatim>\<open>;base64,\<close>, so the run is the longest one.
\<close>

fun stripPrefix :: "string \<Rightarrow> string \<Rightarrow> string option" where
  "stripPrefix [] s = Some s"
| "stripPrefix (p # ps) [] = None"
| "stripPrefix (p # ps) (c # cs) = (if p = c then stripPrefix ps cs else None)"

definition isWordChar :: "char \<Rightarrow> bool" where
  "isWordChar c \<longleftrightarrow>
     c \<in> set (''abcdefghijklmnopqrstuvwxyz'' @ ''ABCDEFGHIJKLMNOPQRSTUVWXYZ'' @ ''0123456789_'')"

definition stripDataUrl :: "string \<Rightarrow> string" where
  "stripDataUrl s =
     (case stripPrefix ''data:image/'' s of
        None \<Rightarrow> s
      | Some r \<Rightarrow>
          if takeWhile isWordChar r = [] then s
          else (case stripPrefix '';base64,'' (dropWhile isWordChar r) of
                  None \<Rightarrow> s
                | Some rest \<Rightarrow> rest))"

text \<open>
  \<^verbatim>\<open>analyzeImage\<close> (lines 33 to 138). The two collaborators are parameters:
  \<open>generateContent\<close> is the request to the model, which rejects or answers with
  \<^verbatim>\<open>response.text\<close> (a string or \<^verbatim>\<open>undefined\<close>), and \<open>parse\<close> is \<^verbatim>\<open>JSON.parse\<close>,
  which throws on a text that is not JSON. The \<^verbatim>\<open>catch\<close> block logs and rethrows, so a
  rejection carries the error that was raised.
\<close>

definition analyzeImage ::
    "(string \<Rightarrow> error + string option) \<Rightarrow> (string \<Rightarrow> error + json) \<Rightarrow> string
       \<Rightarrow> error + DiagnosisResponse" where
  "analyzeImage generateContent parse base64Image =
     (let base64Data = stripDataUrl base64Image
      in case generateContent base64Data of
           Inl e \<Rightarrow> Inl e
         | Inr None \<Rightarrow> Inl NoTextResponse
         | Inr (Some text) \<Rightarrow>
             if text \<noteq> [] then
               (case parse text of
                  Inl e \<Rightarrow> Inl e
                | Inr parsed \<Rightarrow> sanitize parsed)
             else Inl NoTextResponse)"

text \<open>
  The defensive check of the render pass (line 33 of the canvas),
  \<^verbatim>\<open>!annotations || !Array.isArray(annotations)\<close>, on a run-time value.
\<close>

definition defensiveCheck :: "json option \<Rightarrow> bool" where
  "defensiveCheck v \<longleftrightarrow> \<not> truthy v \<or> \<not> isArray v"

subsection \<open>The coordinate mapping in binary64\<close>

text \<open>
  The code computes \<^verbatim>\<open>width / 1000\<close> and \<^verbatim>\<open>value * scale\<close> on binary64 numbers: each
  operation returns the exact result rounded to the nearest binary64 value, a tie going to
  the even significand. A finite binary64 value is \<open>m * 2\<^sup>e\<close> with \<open>\<bar>m\<bar> < 2\<^sup>5\<^sup>3\<close> and
  \<open>-1074 \<le> e \<le> 971\<close>.

  \<open>round64 x\<close> is this rounding of a real \<open>x\<close>. The leading bit of \<open>x\<close> is at
  \<open>\<lfloor>log\<^sub>2 \<bar>x\<bar>\<rfloor>\<close> and the significand has 53 bits, so the binary64 values around \<open>x\<close> are
  the multiples of \<open>2\<close> to the power \<open>lastPlace x\<close>; below \<open>2\<^sup>-\<^sup>1\<^sup>0\<^sup>2\<^sup>2\<close> (the subnormal values)
  the last place stays at \<open>-1074\<close>. The result is \<open>None\<close> when the rounded magnitude
  reaches \<open>2\<^sup>1\<^sup>0\<^sup>2\<^sup>4\<close>, where the operation returns an infinity. The sign of a zero result is
  not modelled.
\<close>

definition tiesToEven :: "real \<Rightarrow> int" where
  "tiesToEven t =
     (let f = \<lfloor>t\<rfloor>; r = t - of_int f
      in if r < 1 / 2 then f else if 1 / 2 < r then f + 1 else if even f then f else f + 1)"

definition lastPlace :: "real \<Rightarrow> int" where
  "lastPlace x = max \<lfloor>log 2 \<bar>x\<bar>\<rfloor> (- 1022) - 52"

definition round64 :: "real \<Rightarrow> real option" where
  "round64 x =
     (if x = 0 then Some 0
      else let g = 2 powr of_int (lastPlace x);
               r = of_int (tiesToEven (x / g)) * g
           in if \<bar>r\<bar> < 2 powr 1024 then Some r else None)"

text \<open>
  The finite binary64 values. Lemmas \<open>round64_binary64\<close> and \<open>round64_nearest\<close> below show
  that a result of \<open>round64\<close> is one of them and that none of them is nearer to the exact
  value.
\<close>

definition binary64 :: "real \<Rightarrow> bool" where
  "binary64 y \<longleftrightarrow>
     (\<exists>m e. \<bar>m\<bar> < 2 ^ 53 \<and> - 1074 \<le> e \<and> e \<le> 971 \<and> y = real_of_int m * 2 powr real_of_int e)"

definition mul64 :: "real \<Rightarrow> real \<Rightarrow> real option" where
  "mul64 a b = round64 (a * b)"

text \<open>Division; a zero divisor gives an infinity or NaN.\<close>

definition div64 :: "real \<Rightarrow> real \<Rightarrow> real option" where
  "div64 a b = (if b = 0 then None else round64 (a / b))"

text \<open>
  The pixel value of a coordinate as the render pass computes it: the scale factor of
  lines 23 and 24 (\<^verbatim>\<open>width / 1000\<close> for x-values, \<^verbatim>\<open>height / 1000\<close> for y-values), then
  the product \<^verbatim>\<open>value * scale\<close> of lines 50 to 85. \<open>None\<close> when the result is not a
  finite number.
\<close>

definition toPixel64 :: "real \<Rightarrow> real \<Rightarrow> real option" where
  "toPixel64 c extent =
     (case div64 extent 1000 of None \<Rightarrow> None | Some scale \<Rightarrow> mul64 c scale)"

subsection \<open>Observations used in the statements\<close>

text \<open>The shapes that a sequence of drawing calls strokes, and the shapes it fills.\<close>

fun stroked :: "drawing list \<Rightarrow> shape list" where
  "stroked [] = []"
| "stroked (Stroke sh b # ds) = sh # stroked ds"
| "stroked (d # ds) = stroked ds"

fun filled :: "drawing list \<Rightarrow> shape list" where
  "filled [] = []"
| "filled (Fill sh b # ds) = sh # filled ds"
| "filled (d # ds) = filled ds"

text \<open>
  The drawing calls that the callback issues for one annotation: what it appends to the
  surface (lemma \<open>render_surface\<close> below shows that the surface it starts from is kept).
\<close>

definition issued :: "metrics \<Rightarrow> real \<Rightarrow> real \<Rightarrow> annotation \<Rightarrow> ctx2d \<Rightarrow> drawing list" where
  "issued tm sx sy ann ctx =
     drop (length (surface ctx)) (surface (snd (renderAnnotation tm sx sy ann ctx)))"

text \<open>
  An annotation that the render pass drops: its tag is none of the four, or the coordinate
  field its tag requires is absent or has the wrong length.
\<close>

definition malformed :: "annotation \<Rightarrow> bool" where
  "malformed ann \<longleftrightarrow>
     (if type ann = ''box'' \<or> type ann = ''highlight'' then
        (case box_2d ann of None \<Rightarrow> True | Some b \<Rightarrow> length b \<noteq> 4)
      else if type ann = ''circle'' then
        (case center ann of None \<Rightarrow> True | Some c \<Rightarrow> length c \<noteq> 2)
      else if type ann = ''arrow'' then
        (case start ann of None \<Rightarrow> True | Some s \<Rightarrow> length s \<noteq> 2) \<or>
        (case endp ann of None \<Rightarrow> True | Some e \<Rightarrow> length e \<noteq> 2)
      else True)"

text \<open>
  The canvas element is rendered with \<^verbatim>\<open>width={width} height={height}\<close> (lines 125 to
  128), so a context that the effect acquires belongs to a canvas of the size of the props.
\<close>

definition sized :: "real \<Rightarrow> real \<Rightarrow> canvas option \<Rightarrow> bool" where
  "sized width height canvasRef =
     (case canvasRef of
        Some (Canvas (Some ctx)) \<Rightarrow> canvasWidth ctx = width \<and> canvasHeight ctx = height
      | _ \<Rightarrow> True)"

text \<open>A context as the browser creates it, on a canvas of the given size.\<close>

definition initialContext :: "real \<Rightarrow> real \<Rightarrow> ctx2d" where
  "initialContext w h =
     \<lparr>strokeStyle = ''#000000'', fillStyle = ''#000000'', lineWidth = 1,
      shadowColor = ''rgba(0, 0, 0, 0)'', shadowBlur = 0, font = ''10px sans-serif'',
      path = [], canvasWidth = w, canvasHeight = h, surface = []\<rparr>"

text \<open>Text metrics for the examples: every character is 8 wide.\<close>

definition fixedPitch :: metrics where
  "fixedPitch f t = 8 * real (length t)"

fun nonEmptyString :: "json \<Rightarrow> bool" where
  "nonEmptyString (JString s) = (s \<noteq> [])"
| "nonEmptyString _ = False"

fun isString :: "json option \<Rightarrow> bool" where
  "isString (Some (JString s)) = True"
| "isString _ = False"

text \<open>Example annotations.\<close>

definition blank :: annotation where
  "blank = \<lparr>type = [], start = None, endp = None, center = None, radius = None,
            box_2d = None, label = []\<rparr>"

definition exampleBox :: annotation where
  "exampleBox = blank\<lparr>type := ''box'', box_2d := Some [100, 200, 300, 400], label := ''crack''\<rparr>"

definition shortBox :: annotation where
  "shortBox = blank\<lparr>type := ''box'', box_2d := Some [100, 200, 300], label := ''crack''\<rparr>"

definition flippedHighlight :: annotation where
  "flippedHighlight =
     blank\<lparr>type := ''highlight'', box_2d := Some [300, 400, 100, 200], label := ''area''\<rparr>"

definition exampleCircle :: annotation where
  "exampleCircle = blank\<lparr>type := ''circle'', center := Some [500, 500], label := ''valve''\<rparr>"

definition negativeCircle :: annotation where
  "negativeCircle =
     blank\<lparr>type := ''circle'', center := Some [500, 500], radius := Some (- 5), label := ''valve''\<rparr>"

definition exampleArrow :: annotation where
  "exampleArrow =
     blank\<lparr>type := ''arrow'', start := Some [0, 0], endp := Some [1000, 0], label := ''turn''\<rparr>"

definition unlabelledBox :: annotation where
  "unlabelledBox = blank\<lparr>type := ''box'', box_2d := Some [100, 200, 300, 400]\<rparr>"

text \<open>
  What the sanitisation promises for one field, given the parsed value \<open>v\<close> of the
  property and the field \<open>x\<close> of the response. A list field is an array: the parsed value
  when that is an array, and the empty array otherwise. A text field is truthy: the parsed
  value when that is truthy, and the default \<open>d\<close> otherwise; it is a non-empty string
  whenever the parsed value is a string or is falsy.
\<close>

definition sanitizedList :: "json option \<Rightarrow> json \<Rightarrow> bool" where
  "sanitizedList v x \<longleftrightarrow>
     isArray (Some x) \<and> (isArray v \<longrightarrow> Some x = v) \<and> (\<not> isArray v \<longrightarrow> x = JArray [])"

definition sanitizedText :: "json option \<Rightarrow> string \<Rightarrow> json \<Rightarrow> bool" where
  "sanitizedText v d x \<longleftrightarrow>
     truthy (Some x) \<and> (truthy v \<longrightarrow> Some x = v) \<and> (\<not> truthy v \<longrightarrow> x = JString d) \<and>
     (isString v \<or> \<not> truthy v \<longrightarrow> nonEmptyString x)"

text \<open>
  An example run of the client: the image is a data URL, the model answers with a JSON text
  in which \<^verbatim>\<open>object_detected\<close> is a number and \<^verbatim>\<open>annotations\<close> is a string, and the
  parser reads that text.
\<close>

definition exampleText :: string where
  \<open>exampleText = ''{"object_detected": 42, "annotations": "none", "steps": ["Unplug"]}''\<close>

definition exampleModel :: "string \<Rightarrow> error + string option" where
  "exampleModel base64Data =
     (if base64Data = ''AAAA'' then Inr (Some exampleText) else Inl (ApiFailure ''no image''))"

definition exampleParse :: "string \<Rightarrow> error + json" where
  "exampleParse text =
     (if text = exampleText
      then Inr (JObject [(''object_detected'', JNumber 42), (''annotations'', JString ''none''),
                         (''steps'', JArray [JString ''Unplug''])])
      else Inl SyntaxError)"

definition exampleResponse :: DiagnosisResponse where
  "exampleResponse =
     \<lparr>object_detected = JNumber 42,
      issue_detected = JString ''Analysis Pending'',
      confidence = JString ''Unknown'',
      safety_warnings = JArray [],
      tools_required = JArray [],
      household_tool_alternatives = JArray [],
      steps = JArray [JString ''Unplug''],
      annotations = JArray [],
      camera_guidance = JString ''None'',
      cause_explanation = JString ''No explanation provided.'',
      prevention_tips = JString ''No specific tips.''\<rparr>"

section \<open>Properties\<close>

subsection \<open>The drawing calls of each kind of annotation\<close>

lemma typeColor_simps:
  "typeColor ''box'' = ''#22c55e''" "typeColor ''highlight'' = ''#f97316''"
  "typeColor ''circle'' = ''#ef4444''" "typeColor ''arrow'' = ''#eab308''"
  by (simp_all add: typeColor_def)

lemma drawLabel_eq:
  "drawLabel tm text x y color ctx =
     ctx\<lparr>fillStyle := color,
         surface := surface ctx @
           [Fill (Rect (x - 6) (y - 20) (tm (font ctx) text + 12) 24)
              ((fillBrush ctx)\<lparr>ink := ''rgba(0,0,0,0.8)''\<rparr>),
            Fill (Text text x y) ((fillBrush ctx)\<lparr>ink := color\<rparr>)]\<rparr>"
  by (simp add: drawLabel_def fillRect_def fillText_def fillBrush_def Let_def)

lemma drawArrow_eq:
  "drawArrow x1 y1 x2 y2 ctx =
     ctx\<lparr>path :=
           [MoveTo x2 y2,
            LineTo (x2 - 15 * cos (atan2 (y2 - y1) (x2 - x1) - pi / 6))
                   (y2 - 15 * sin (atan2 (y2 - y1) (x2 - x1) - pi / 6)),
            LineTo (x2 - 15 * cos (atan2 (y2 - y1) (x2 - x1) + pi / 6))
                   (y2 - 15 * sin (atan2 (y2 - y1) (x2 - x1) + pi / 6)),
            LineTo x2 y2],
         surface := surface ctx @
           [Stroke (Path [MoveTo x1 y1, LineTo x2 y2]) (strokeBrush ctx),
            Fill (Path
              [MoveTo x2 y2,
               LineTo (x2 - 15 * cos (atan2 (y2 - y1) (x2 - x1) - pi / 6))
                      (y2 - 15 * sin (atan2 (y2 - y1) (x2 - x1) - pi / 6)),
               LineTo (x2 - 15 * cos (atan2 (y2 - y1) (x2 - x1) + pi / 6))
                      (y2 - 15 * sin (atan2 (y2 - y1) (x2 - x1) + pi / 6)),
               LineTo x2 y2]) (fillBrush ctx)]\<rparr>"
  by (simp add: drawArrow_def beginPath_def moveTo_def lineTo_def stroke_def fill_def
      strokeBrush_def fillBrush_def Let_def)

lemma render_box:
  assumes "type ann = ''box''" and "box_2d ann = Some [ymin, xmin, ymax, xmax]"
  shows "renderAnnotation tm sx sy ann ctx =
     (Completed,
      ctx\<lparr>strokeStyle := ''#22c55e'', fillStyle := ''#22c55e'',
          surface := surface ctx @
            [Stroke (Rect (xmin * sx) (ymin * sy) ((xmax - xmin) * sx) ((ymax - ymin) * sy))
               ((strokeBrush ctx)\<lparr>ink := ''#22c55e''\<rparr>),
             Fill (Rect (xmin * sx - 6) (ymin * sy - 10 - 20) (tm (font ctx) (label ann) + 12) 24)
               ((fillBrush ctx)\<lparr>ink := ''rgba(0,0,0,0.8)''\<rparr>),
             Fill (Text (label ann) (xmin * sx) (ymin * sy - 10))
               ((fillBrush ctx)\<lparr>ink := ''#22c55e''\<rparr>)]\<rparr>)"
  using assms
  by (simp add: renderAnnotation_def typeColor_simps drawLabel_eq strokeRect_def
      strokeBrush_def fillBrush_def Let_def)

lemma render_highlight:
  assumes "type ann = ''highlight''" and "box_2d ann = Some [ymin, xmin, ymax, xmax]"
  shows "renderAnnotation tm sx sy ann ctx =
     (Completed,
      ctx\<lparr>strokeStyle := ''#f97316'', fillStyle := ''#f97316'',
          surface := surface ctx @
            [Fill (Rect (xmin * sx) (ymin * sy) ((xmax - xmin) * sx) ((ymax - ymin) * sy))
               ((fillBrush ctx)\<lparr>ink := ''#f9731640''\<rparr>),
             Stroke (Rect (xmin * sx) (ymin * sy) ((xmax - xmin) * sx) ((ymax - ymin) * sy))
               ((strokeBrush ctx)\<lparr>ink := ''#f97316''\<rparr>),
             Fill (Rect (xmin * sx - 6) (ymin * sy - 10 - 20) (tm (font ctx) (label ann) + 12) 24)
               ((fillBrush ctx)\<lparr>ink := ''rgba(0,0,0,0.8)''\<rparr>),
             Fill (Text (label ann) (xmin * sx) (ymin * sy - 10))
               ((fillBrush ctx)\<lparr>ink := ''#f97316''\<rparr>)]\<rparr>)"
  using assms
  by (simp add: renderAnnotation_def typeColor_simps drawLabel_eq strokeRect_def fillRect_def
      strokeBrush_def fillBrush_def Let_def)

lemma render_circle:
  assumes "type ann = ''circle''" and "center ann = Some [x0, y0]"
    and "0 \<le> radiusOr (radius ann) 50 * sx"
  shows "renderAnnotation tm sx sy ann ctx =
     (Completed,
      ctx\<lparr>strokeStyle := ''#ef4444'', fillStyle := ''#ef4444'',
          path := [Arc (x0 * sx) (y0 * sy) (radiusOr (radius ann) 50 * sx) 0 (2 * pi)],
          surface := surface ctx @
            [Stroke (Path [Arc (x0 * sx) (y0 * sy) (radiusOr (radius ann) 50 * sx) 0 (2 * pi)])
               ((strokeBrush ctx)\<lparr>ink := ''#ef4444''\<rparr>),
             Fill (Rect (x0 * sx - 20 - 6) (y0 * sy - radiusOr (radius ann) 50 * sx - 10 - 20)
                     (tm (font ctx) (label ann) + 12) 24)
               ((fillBrush ctx)\<lparr>ink := ''rgba(0,0,0,0.8)''\<rparr>),
             Fill (Text (label ann) (x0 * sx - 20) (y0 * sy - radiusOr (radius ann) 50 * sx - 10))
               ((fillBrush ctx)\<lparr>ink := ''#ef4444''\<rparr>)]\<rparr>)"
  using assms
  by (simp add: renderAnnotation_def typeColor_simps drawLabel_eq beginPath_def arc_def
      stroke_def strokeBrush_def fillBrush_def Let_def)

lemma render_circle_negative:
  assumes "type ann = ''circle''" and "center ann = Some [x0, y0]"
    and "radiusOr (radius ann) 50 * sx < 0"
  shows "renderAnnotation tm sx sy ann ctx =
     (Threw IndexSizeError,
      ctx\<lparr>strokeStyle := ''#ef4444'', fillStyle := ''#ef4444'', path := []\<rparr>)"
  using assms
  by (simp add: renderAnnotation_def typeColor_simps beginPath_def arc_def Let_def)

lemma render_arrow:
  assumes "type ann = ''arrow''" and "start ann = Some [a, b]" and "endp ann = Some [c, d]"
  shows "renderAnnotation tm sx sy ann ctx =
     (Completed,
      drawLabel tm (label ann) (a * sx) (b * sy - 20) ''#eab308''
        (drawArrow (a * sx) (b * sy) (c * sx) (d * sy)
           (ctx\<lparr>strokeStyle := ''#eab308'', fillStyle := ''#eab308''\<rparr>)))"
  using assms
  by (simp add: renderAnnotation_def typeColor_simps Let_def)

lemma render_malformed:
  assumes "malformed ann"
  shows "renderAnnotation tm sx sy ann ctx =
     (Completed, ctx\<lparr>strokeStyle := typeColor (type ann), fillStyle := typeColor (type ann)\<rparr>)"
proof -
  consider (rect) "type ann = ''box'' \<or> type ann = ''highlight''"
    | (circ) "\<not> (type ann = ''box'' \<or> type ann = ''highlight'')" "type ann = ''circle''"
    | (arr) "\<not> (type ann = ''box'' \<or> type ann = ''highlight'')" "type ann \<noteq> ''circle''"
        "type ann = ''arrow''"
    | (other) "\<not> (type ann = ''box'' \<or> type ann = ''highlight'')" "type ann \<noteq> ''circle''"
        "type ann \<noteq> ''arrow''"
    by blast
  then show ?thesis
  proof cases
    case rect
    with assms show ?thesis
      by (auto simp add: malformed_def renderAnnotation_def Let_def split: option.splits)
  next
    case circ
    with assms show ?thesis
      by (auto simp add: malformed_def renderAnnotation_def Let_def split: option.splits)
  next
    case arr
    with assms show ?thesis
      by (auto simp add: malformed_def renderAnnotation_def Let_def split: option.splits)
  next
    case other
    then show ?thesis
      by (simp add: renderAnnotation_def Let_def)
  qed
qed

lemma render_restyle:
  "renderAnnotation tm sx sy ann (ctx\<lparr>strokeStyle := s, fillStyle := f\<rparr>) =
   renderAnnotation tm sx sy ann ctx"
  by (simp add: renderAnnotation_def)

lemma length4E:
  assumes "length b = 4"
  obtains x0 x1 x2 x3 where "b = [x0, x1, x2, x3]"
  using assms by (auto simp: length_Suc_conv numeral_eq_Suc)

lemma length2E:
  assumes "length b = 2"
  obtains x0 x1 where "b = [x0, x1]"
  using assms by (auto simp: length_Suc_conv numeral_eq_Suc)

lemma not_malformed_boxD:
  assumes "\<not> malformed ann" and "type ann = ''box'' \<or> type ann = ''highlight''"
  obtains b where "box_2d ann = Some b" "length b = 4"
  using assms by (auto simp: malformed_def split: option.splits)

lemma not_malformed_circleD:
  assumes "\<not> malformed ann" and "type ann = ''circle''"
  obtains c where "center ann = Some c" "length c = 2"
  using assms by (auto simp: malformed_def split: option.splits)

lemma not_malformed_arrowD:
  assumes "\<not> malformed ann" and "type ann = ''arrow''"
  obtains s e where "start ann = Some s" "length s = 2" "endp ann = Some e" "length e = 2"
  using assms by (auto simp: malformed_def split: option.splits)

lemma not_malformed_type:
  assumes "\<not> malformed ann"
  shows "type ann = ''box'' \<or> type ann = ''highlight'' \<or> type ann = ''circle'' \<or>
         type ann = ''arrow''"
  using assms unfolding malformed_def by meson

text \<open>Every annotation is dropped or is one of the four shapes with its coordinates.\<close>

lemma annotation_cases [case_names malformed box highlight circle arrow]:
  obtains
    (malformed) "malformed ann"
  | (box) ymin xmin ymax xmax where
      "type ann = ''box''" "box_2d ann = Some [ymin, xmin, ymax, xmax]"
  | (highlight) ymin xmin ymax xmax where
      "type ann = ''highlight''" "box_2d ann = Some [ymin, xmin, ymax, xmax]"
  | (circle) x0 y0 where "type ann = ''circle''" "center ann = Some [x0, y0]"
  | (arrow) a b c d where
      "type ann = ''arrow''" "start ann = Some [a, b]" "endp ann = Some [c, d]"
proof (cases "malformed ann")
  case True
  then show ?thesis by (rule malformed)
next
  case False
  from not_malformed_type [OF False] consider
    "type ann = ''box''" | "type ann = ''highlight''" | "type ann = ''circle''"
    | "type ann = ''arrow''"
    by blast
  then show ?thesis
  proof cases
    case 1
    with False obtain b where "box_2d ann = Some b" "length b = 4"
      by (blast elim: not_malformed_boxD)
    with 1 show ?thesis by (blast elim: length4E intro: box)
  next
    case 2
    with False obtain b where "box_2d ann = Some b" "length b = 4"
      by (blast elim: not_malformed_boxD)
    with 2 show ?thesis by (blast elim: length4E intro: highlight)
  next
    case 3
    with False obtain c where "center ann = Some c" "length c = 2"
      by (blast elim: not_malformed_circleD)
    with 3 show ?thesis by (blast elim: length2E intro: circle)
  next
    case 4
    with False obtain s e
      where "start ann = Some s" "length s = 2" "endp ann = Some e" "length e = 2"
      by (blast elim: not_malformed_arrowD)
    with 4 show ?thesis by (blast elim: length2E intro: arrow)
  qed
qed

text \<open>The callback only appends to the surface.\<close>

lemma render_surface_prefix:
  "\<exists>ds. surface (snd (renderAnnotation tm sx sy ann ctx)) = surface ctx @ ds"
proof (cases ann rule: annotation_cases)
  case malformed
  then show ?thesis by (simp add: render_malformed)
next
  case (box ymin xmin ymax xmax)
  then show ?thesis by (simp add: render_box)
next
  case (highlight ymin xmin ymax xmax)
  then show ?thesis by (simp add: render_highlight)
next
  case (circle x0 y0)
  show ?thesis
  proof (cases "0 \<le> radiusOr (radius ann) 50 * sx")
    case True
    with circle show ?thesis by (simp add: render_circle)
  next
    case False
    with circle show ?thesis by (simp add: render_circle_negative)
  qed
next
  case (arrow a b c d)
  then show ?thesis by (simp add: render_arrow drawArrow_eq drawLabel_eq)
qed

lemma render_surface:
  "surface (snd (renderAnnotation tm sx sy ann ctx)) = surface ctx @ issued tm sx sy ann ctx"
  using render_surface_prefix [of tm sx sy ann ctx] by (auto simp: issued_def)

lemma issued_box:
  assumes "type ann = ''box''" and "box_2d ann = Some [ymin, xmin, ymax, xmax]"
  shows "issued tm sx sy ann ctx =
     [Stroke (Rect (xmin * sx) (ymin * sy) ((xmax - xmin) * sx) ((ymax - ymin) * sy))
        ((strokeBrush ctx)\<lparr>ink := ''#22c55e''\<rparr>),
      Fill (Rect (xmin * sx - 6) (ymin * sy - 10 - 20) (tm (font ctx) (label ann) + 12) 24)
        ((fillBrush ctx)\<lparr>ink := ''rgba(0,0,0,0.8)''\<rparr>),
      Fill (Text (label ann) (xmin * sx) (ymin * sy - 10))
        ((fillBrush ctx)\<lparr>ink := ''#22c55e''\<rparr>)]"
  by (simp add: issued_def render_box [OF assms])

lemma issued_highlight:
  assumes "type ann = ''highlight''" and "box_2d ann = Some [ymin, xmin, ymax, xmax]"
  shows "issued tm sx sy ann ctx =
     [Fill (Rect (xmin * sx) (ymin * sy) ((xmax - xmin) * sx) ((ymax - ymin) * sy))
        ((fillBrush ctx)\<lparr>ink := ''#f9731640''\<rparr>),
      Stroke (Rect (xmin * sx) (ymin * sy) ((xmax - xmin) * sx) ((ymax - ymin) * sy))
        ((strokeBrush ctx)\<lparr>ink := ''#f97316''\<rparr>),
      Fill (Rect (xmin * sx - 6) (ymin * sy - 10 - 20) (tm (font ctx) (label ann) + 12) 24)
        ((fillBrush ctx)\<lparr>ink := ''rgba(0,0,0,0.8)''\<rparr>),
      Fill (Text (label ann) (xmin * sx) (ymin * sy - 10))
        ((fillBrush ctx)\<lparr>ink := ''#f97316''\<rparr>)]"
  by (simp add: issued_def render_highlight [OF assms])

lemma issued_circle:
  assumes "type ann = ''circle''" and "center ann = Some [x0, y0]"
    and "0 \<le> radiusOr (radius ann) 50 * sx"
  shows "issued tm sx sy ann ctx =
     [Stroke (Path [Arc (x0 * sx) (y0 * sy) (radiusOr (radius ann) 50 * sx) 0 (2 * pi)])
        ((strokeBrush ctx)\<lparr>ink := ''#ef4444''\<rparr>),
      Fill (Rect (x0 * sx - 20 - 6) (y0 * sy - radiusOr (radius ann) 50 * sx - 10 - 20)
              (tm (font ctx) (label ann) + 12) 24)
        ((fillBrush ctx)\<lparr>ink := ''rgba(0,0,0,0.8)''\<rparr>),
      Fill (Text (label ann) (x0 * sx - 20) (y0 * sy - radiusOr (radius ann) 50 * sx - 10))
        ((fillBrush ctx)\<lparr>ink := ''#ef4444''\<rparr>)]"
  by (simp add: issued_def render_circle [OF assms])

lemma issued_arrow:
  assumes "type ann = ''arrow''" and "start ann = Some [a, b]" and "endp ann = Some [c, d]"
  shows "issued tm sx sy ann ctx =
     [Stroke (Path [MoveTo (a * sx) (b * sy), LineTo (c * sx) (d * sy)])
        ((strokeBrush ctx)\<lparr>ink := ''#eab308''\<rparr>),
      Fill (Path
        [MoveTo (c * sx) (d * sy),
         LineTo (c * sx - 15 * cos (atan2 (d * sy - b * sy) (c * sx - a * sx) - pi / 6))
                (d * sy - 15 * sin (atan2 (d * sy - b * sy) (c * sx - a * sx) - pi / 6)),
         LineTo (c * sx - 15 * cos (atan2 (d * sy - b * sy) (c * sx - a * sx) + pi / 6))
                (d * sy - 15 * sin (atan2 (d * sy - b * sy) (c * sx - a * sx) + pi / 6)),
         LineTo (c * sx) (d * sy)])
        ((fillBrush ctx)\<lparr>ink := ''#eab308''\<rparr>),
      Fill (Rect (a * sx - 6) (b * sy - 20 - 20) (tm (font ctx) (label ann) + 12) 24)
        ((fillBrush ctx)\<lparr>ink := ''rgba(0,0,0,0.8)''\<rparr>),
      Fill (Text (label ann) (a * sx) (b * sy - 20))
        ((fillBrush ctx)\<lparr>ink := ''#eab308''\<rparr>)]"
  by (simp add: issued_def render_arrow [OF assms] drawArrow_eq drawLabel_eq
      strokeBrush_def fillBrush_def)

subsection \<open>The loop over the annotations\<close>

lemma forEach_append:
  "forEach f (xs @ ys) ctx =
     (case forEach f xs ctx of
        (Completed, ctx') \<Rightarrow> forEach f ys ctx'
      | (Threw e, ctx') \<Rightarrow> (Threw e, ctx'))"
  by (induction xs arbitrary: ctx) (auto split: prod.splits outcome.splits)

text \<open>Each annotation sets both styles first, so the styles it starts from do not matter.\<close>

lemma forEach_restyle:
  "anns \<noteq> [] \<Longrightarrow>
   forEach (renderAnnotation tm sx sy) anns (ctx\<lparr>strokeStyle := s, fillStyle := f\<rparr>) =
   forEach (renderAnnotation tm sx sy) anns ctx"
  by (cases anns) (simp_all add: render_restyle)

lemma forEach_skip:
  assumes "malformed ann"
  shows "fst (forEach (renderAnnotation tm sx sy) (ann # ys) ctx) =
           fst (forEach (renderAnnotation tm sx sy) ys ctx) \<and>
         surface (snd (forEach (renderAnnotation tm sx sy) (ann # ys) ctx)) =
           surface (snd (forEach (renderAnnotation tm sx sy) ys ctx))"
proof (cases ys)
  case Nil
  then show ?thesis by (simp add: render_malformed [OF assms])
next
  case (Cons y zs)
  then have "ys \<noteq> []" by simp
  then show ?thesis
    by (simp add: render_malformed [OF assms] forEach_restyle)
qed

lemma forEach_drop_malformed:
  assumes "malformed ann"
  shows "fst (forEach (renderAnnotation tm sx sy) (xs @ ann # ys) ctx) =
           fst (forEach (renderAnnotation tm sx sy) (xs @ ys) ctx) \<and>
         surface (snd (forEach (renderAnnotation tm sx sy) (xs @ ann # ys) ctx)) =
           surface (snd (forEach (renderAnnotation tm sx sy) (xs @ ys) ctx))"
  using forEach_skip [OF assms]
  by (auto simp: forEach_append split: prod.splits outcome.splits)

subsection \<open>What a pass leaves in the context\<close>

text \<open>
  An annotation either rebuilds the current path before it uses it (a drawn circle or
  arrow), or completes without reading or changing it.
\<close>

lemma render_repath:
  "(\<forall>p. renderAnnotation tm sx sy ann (ctx\<lparr>path := p\<rparr>) = renderAnnotation tm sx sy ann ctx) \<or>
   (fst (renderAnnotation tm sx sy ann ctx) = Completed \<and>
    path (snd (renderAnnotation tm sx sy ann ctx)) = path ctx \<and>
    (\<forall>p. renderAnnotation tm sx sy ann (ctx\<lparr>path := p\<rparr>) =
       (Completed, (snd (renderAnnotation tm sx sy ann ctx))\<lparr>path := p\<rparr>)))"
proof (cases ann rule: annotation_cases)
  case malformed
  then show ?thesis by (simp add: render_malformed)
next
  case (box ymin xmin ymax xmax)
  then show ?thesis by (simp add: render_box strokeBrush_def fillBrush_def)
next
  case (highlight ymin xmin ymax xmax)
  then show ?thesis by (simp add: render_highlight strokeBrush_def fillBrush_def)
next
  case (circle x0 y0)
  show ?thesis
  proof (cases "0 \<le> radiusOr (radius ann) 50 * sx")
    case True
    with circle show ?thesis by (simp add: render_circle strokeBrush_def fillBrush_def)
  next
    case False
    with circle show ?thesis by (simp add: render_circle_negative)
  qed
next
  case (arrow a b c d)
  then show ?thesis
    by (simp add: render_arrow drawArrow_eq drawLabel_eq strokeBrush_def fillBrush_def)
qed

text \<open>The callback changes the two styles, the path and the surface, and nothing else.\<close>

lemma render_frame:
  "\<exists>s f p d. snd (renderAnnotation tm sx sy ann ctx) =
     ctx\<lparr>strokeStyle := s, fillStyle := f, path := p, surface := d\<rparr>"
proof -
  have "snd (renderAnnotation tm sx sy ann ctx) =
        ctx\<lparr>strokeStyle := strokeStyle (snd (renderAnnotation tm sx sy ann ctx)),
            fillStyle := fillStyle (snd (renderAnnotation tm sx sy ann ctx)),
            path := path (snd (renderAnnotation tm sx sy ann ctx)),
            surface := surface (snd (renderAnnotation tm sx sy ann ctx))\<rparr>"
  proof (cases ann rule: annotation_cases)
    case malformed
    then show ?thesis by (simp add: render_malformed)
  next
    case (box ymin xmin ymax xmax)
    then show ?thesis by (simp add: render_box)
  next
    case (highlight ymin xmin ymax xmax)
    then show ?thesis by (simp add: render_highlight)
  next
    case (circle x0 y0)
    show ?thesis
    proof (cases "0 \<le> radiusOr (radius ann) 50 * sx")
      case True
      with circle show ?thesis by (simp add: render_circle)
    next
      case False
      with circle show ?thesis by (simp add: render_circle_negative)
    qed
  next
    case (arrow a b c d)
    then show ?thesis by (simp add: render_arrow drawArrow_eq drawLabel_eq)
  qed
  then show ?thesis by blast
qed

lemma forEach_repath:
  "(\<forall>p. forEach (renderAnnotation tm sx sy) anns (ctx\<lparr>path := p\<rparr>) =
        forEach (renderAnnotation tm sx sy) anns ctx) \<or>
   (path (snd (forEach (renderAnnotation tm sx sy) anns ctx)) = path ctx \<and>
    (\<forall>p. forEach (renderAnnotation tm sx sy) anns (ctx\<lparr>path := p\<rparr>) =
       (fst (forEach (renderAnnotation tm sx sy) anns ctx),
        (snd (forEach (renderAnnotation tm sx sy) anns ctx))\<lparr>path := p\<rparr>)))"
proof (induction anns arbitrary: ctx)
  case Nil
  show ?case by simp
next
  case (Cons a as)
  let ?R = "renderAnnotation tm sx sy"
  from render_repath [of tm sx sy a ctx] show ?case
  proof
    assume "\<forall>p. ?R a (ctx\<lparr>path := p\<rparr>) = ?R a ctx"
    then show ?thesis by simp
  next
    assume keep: "fst (?R a ctx) = Completed \<and> path (snd (?R a ctx)) = path ctx \<and>
      (\<forall>p. ?R a (ctx\<lparr>path := p\<rparr>) = (Completed, (snd (?R a ctx))\<lparr>path := p\<rparr>))"
    define c where "c = snd (?R a ctx)"
    from keep have step: "?R a ctx = (Completed, c)"
      by (simp add: c_def prod_eq_iff)
    from keep have step': "\<And>p. ?R a (ctx\<lparr>path := p\<rparr>) = (Completed, c\<lparr>path := p\<rparr>)"
      by (simp add: c_def)
    from keep have pc: "path c = path ctx" by (simp add: c_def)
    from Cons.IH [of c] show ?thesis
    proof
      assume "\<forall>p. forEach ?R as (c\<lparr>path := p\<rparr>) = forEach ?R as c"
      then show ?thesis by (simp add: step step')
    next
      assume "path (snd (forEach ?R as c)) = path c \<and>
        (\<forall>p. forEach ?R as (c\<lparr>path := p\<rparr>) =
           (fst (forEach ?R as c), (snd (forEach ?R as c))\<lparr>path := p\<rparr>))"
      then show ?thesis by (simp add: step step' pc)
    qed
  qed
qed

lemma forEach_frame:
  "\<exists>s f p d. snd (forEach (renderAnnotation tm sx sy) anns ctx) =
     ctx\<lparr>strokeStyle := s, fillStyle := f, path := p, surface := d\<rparr>"
proof (induction anns arbitrary: ctx)
  case Nil
  have "ctx = ctx\<lparr>strokeStyle := strokeStyle ctx, fillStyle := fillStyle ctx,
                 path := path ctx, surface := surface ctx\<rparr>" by simp
  then show ?case by (metis forEach.simps(1) snd_conv)
next
  case (Cons a as)
  let ?R = "renderAnnotation tm sx sy"
  obtain out c where step: "?R a ctx = (out, c)" by (cases "?R a ctx")
  from render_frame [of tm sx sy a ctx] step obtain s f p d
    where c: "c = ctx\<lparr>strokeStyle := s, fillStyle := f, path := p, surface := d\<rparr>" by auto
  show ?case
  proof (cases out)
    case Completed
    from Cons.IH [of c] obtain s' f' p' d'
      where "snd (forEach ?R as c) =
               c\<lparr>strokeStyle := s', fillStyle := f', path := p', surface := d'\<rparr>"
      by blast
    then have "snd (forEach ?R (a # as) ctx) =
        ctx\<lparr>strokeStyle := s', fillStyle := f', path := p', surface := d'\<rparr>"
      by (simp add: step Completed c)
    then show ?thesis by blast
  next
    case (Threw e)
    then have "snd (forEach ?R (a # as) ctx) = c" by (simp add: step)
    with c show ?thesis by blast
  qed
qed

text \<open>
  A second pass on the context that a first pass left, with the same inputs, ends exactly
  as the first: the clear empties the surface, the defaults are set again, and the styles
  and the path that the first pass left are overwritten before they are used.
\<close>

lemma renderPass_idem:
  assumes "canvasWidth ctx = width" and "canvasHeight ctx = height"
  shows "renderPass tm width height anns (snd (renderPass tm width height anns ctx)) =
         renderPass tm width height anns ctx"
proof (cases anns)
  case None
  with assms show ?thesis
    by (simp add: renderPass_def clearRect_def covers_def Let_def)
next
  case (Some as)
  let ?R = "renderAnnotation tm (scaleX width) (scaleY height)"
  define prepare where "prepare = (\<lambda>c::ctx2d. c\<lparr>surface := [], lineWidth := 3,
      shadowColor := ''rgba(0,0,0,0.8)'', shadowBlur := 4,
      font := ''bold 14px Inter, sans-serif''\<rparr>)"
  have pass: "\<And>c. canvasWidth c = width \<Longrightarrow> canvasHeight c = height \<Longrightarrow>
      renderPass tm width height (Some as) c = forEach ?R as (prepare c)"
    by (simp add: renderPass_def clearRect_def covers_def Let_def prepare_def)
  have first: "renderPass tm width height (Some as) ctx = forEach ?R as (prepare ctx)"
    using assms by (rule pass)
  define e where "e = snd (forEach ?R as (prepare ctx))"
  from forEach_frame [of tm "scaleX width" "scaleY height" as "prepare ctx"] obtain s f p d
    where e: "e = (prepare ctx)\<lparr>strokeStyle := s, fillStyle := f, path := p, surface := d\<rparr>"
    by (auto simp: e_def)
  have dims: "canvasWidth e = width" "canvasHeight e = height"
    using assms by (simp_all add: e prepare_def)
  have again: "prepare e =
      ((prepare ctx)\<lparr>path := path e\<rparr>)\<lparr>strokeStyle := strokeStyle e, fillStyle := fillStyle e\<rparr>"
    by (rule ctx2d.equality) (simp_all add: e prepare_def)
  have second: "renderPass tm width height (Some as) e =
      forEach ?R as (((prepare ctx)\<lparr>path := path e\<rparr>)\<lparr>strokeStyle := strokeStyle e,
        fillStyle := fillStyle e\<rparr>)"
    using pass [OF dims] by (simp only: again)
  have "forEach ?R as (((prepare ctx)\<lparr>path := path e\<rparr>)\<lparr>strokeStyle := strokeStyle e,
          fillStyle := fillStyle e\<rparr>) = forEach ?R as (prepare ctx)"
  proof (cases as)
    case Nil
    then show ?thesis by (simp add: e_def)
  next
    case (Cons a list)
    then have "as \<noteq> []" by simp
    then have "forEach ?R as (((prepare ctx)\<lparr>path := path e\<rparr>)\<lparr>strokeStyle := strokeStyle e,
          fillStyle := fillStyle e\<rparr>) = forEach ?R as ((prepare ctx)\<lparr>path := path e\<rparr>)"
      by (rule forEach_restyle)
    also have "\<dots> = forEach ?R as (prepare ctx)"
      using forEach_repath [of tm "scaleX width" "scaleY height" as "prepare ctx"]
      by (auto simp: e_def prod_eq_iff)
    finally show ?thesis .
  qed
  with first second Some show ?thesis by (simp add: e_def)
qed

text \<open>
  Claim C9. The render pass is idempotent. On a canvas of the size of the props, running
  the effect a second time with the same annotations, width and height, on the canvas that
  the first run left, ends with the same outcome and leaves the canvas (the surface and the
  whole context) exactly as the first run left it. This covers the runs that return early
  (no canvas, no context, no annotation list) and the runs that an exception ends.
\<close>

theorem render_pass_idempotent:
  assumes "sized width height canvasRef"
  shows "renderEffect tm width height anns (snd (renderEffect tm width height anns canvasRef)) =
         renderEffect tm width height anns canvasRef"
proof (cases canvasRef)
  case None
  then show ?thesis by (simp add: renderEffect_def)
next
  case (Some cv)
  show ?thesis
  proof (cases "getContext cv")
    case None
    with Some show ?thesis by (simp add: renderEffect_def)
  next
    case (Some ctx)
    with \<open>canvasRef = Some cv\<close> assms
    have dims: "canvasWidth ctx = width" "canvasHeight ctx = height"
      by (cases cv; simp add: sized_def)+
    obtain out ctx' where r: "renderPass tm width height anns ctx = (out, ctx')"
      by (cases "renderPass tm width height anns ctx")
    from renderPass_idem [OF dims, of tm anns] r
    have "renderPass tm width height anns ctx' = (out, ctx')" by simp
    with r Some \<open>canvasRef = Some cv\<close> show ?thesis
      by (simp add: renderEffect_def)
  qed
qed

theorem render_pass_idempotent_witness:
  "sized 800 600 (Some (Canvas (Some (initialContext 800 600)))) \<and>
   renderEffect fixedPitch 800 600 (Some [flippedHighlight, exampleCircle, exampleArrow])
     (snd (renderEffect fixedPitch 800 600 (Some [flippedHighlight, exampleCircle, exampleArrow])
        (Some (Canvas (Some (initialContext 800 600)))))) =
   renderEffect fixedPitch 800 600 (Some [flippedHighlight, exampleCircle, exampleArrow])
     (Some (Canvas (Some (initialContext 800 600))))"
proof -
  have s: "sized 800 600 (Some (Canvas (Some (initialContext 800 600))))"
    by (simp add: sized_def initialContext_def)
  from render_pass_idempotent [OF s] s show ?thesis
    by blast
qed

subsection \<open>What a pass paints\<close>

text \<open>
  What a pass paints. The outcome of the callback and the calls it issues depend on the
  annotation, the scale factors and the four attributes that the pass sets once (line
  width, shadow colour, shadow blur, font), and on nothing else of the context.
\<close>

lemma render_outcome_indep:
  "fst (renderAnnotation tm sx sy ann ctx) = fst (renderAnnotation tm sx sy ann ctx')"
proof (cases ann rule: annotation_cases)
  case malformed
  then show ?thesis by (simp add: render_malformed)
next
  case (box ymin xmin ymax xmax)
  then show ?thesis by (simp add: render_box)
next
  case (highlight ymin xmin ymax xmax)
  then show ?thesis by (simp add: render_highlight)
next
  case (circle x0 y0)
  show ?thesis
  proof (cases "0 \<le> radiusOr (radius ann) 50 * sx")
    case True
    with circle show ?thesis by (simp add: render_circle)
  next
    case False
    with circle show ?thesis by (simp add: render_circle_negative)
  qed
next
  case (arrow a b c d)
  then show ?thesis by (simp add: render_arrow)
qed

lemma issued_indep:
  assumes "lineWidth ctx' = lineWidth ctx" and "shadowColor ctx' = shadowColor ctx"
    and "shadowBlur ctx' = shadowBlur ctx" and "font ctx' = font ctx"
  shows "issued tm sx sy ann ctx' = issued tm sx sy ann ctx"
proof -
  have sb: "\<And>i. (strokeBrush ctx')\<lparr>ink := i\<rparr> = (strokeBrush ctx)\<lparr>ink := i\<rparr>"
    and fb: "\<And>i. (fillBrush ctx')\<lparr>ink := i\<rparr> = (fillBrush ctx)\<lparr>ink := i\<rparr>"
    using assms by (simp_all add: strokeBrush_def fillBrush_def)
  show ?thesis
  proof (cases ann rule: annotation_cases)
    case malformed
    then show ?thesis by (simp add: issued_def render_malformed)
  next
    case (box ymin xmin ymax xmax)
    then show ?thesis by (simp add: issued_box sb fb assms)
  next
    case (highlight ymin xmin ymax xmax)
    then show ?thesis by (simp add: issued_highlight sb fb assms)
  next
    case (circle x0 y0)
    show ?thesis
    proof (cases "0 \<le> radiusOr (radius ann) 50 * sx")
      case True
      with circle show ?thesis by (simp add: issued_circle sb fb assms)
    next
      case False
      with circle show ?thesis by (simp add: issued_def render_circle_negative)
    qed
  next
    case (arrow a b c d)
    then show ?thesis by (simp add: issued_arrow sb fb assms)
  qed
qed

lemma issued_thrown:
  assumes "fst (renderAnnotation tm sx sy ann ctx) \<noteq> Completed"
  shows "issued tm sx sy ann ctx = []"
proof (cases ann rule: annotation_cases)
  case malformed
  then show ?thesis by (simp add: issued_def render_malformed)
next
  case (box ymin xmin ymax xmax)
  with assms show ?thesis by (simp add: render_box)
next
  case (highlight ymin xmin ymax xmax)
  with assms show ?thesis by (simp add: render_highlight)
next
  case (circle x0 y0)
  show ?thesis
  proof (cases "0 \<le> radiusOr (radius ann) 50 * sx")
    case True
    with circle assms show ?thesis by (simp add: render_circle)
  next
    case False
    with circle show ?thesis by (simp add: issued_def render_circle_negative)
  qed
next
  case (arrow a b c d)
  with assms show ?thesis by (simp add: render_arrow)
qed

text \<open>
  The loop appends to the surface, in list order, the calls of each annotation up to the
  first one that raises, and it completes exactly when every annotation does.
\<close>

lemma forEach_surface:
  assumes "lineWidth ctx' = lineWidth ctx" and "shadowColor ctx' = shadowColor ctx"
    and "shadowBlur ctx' = shadowBlur ctx" and "font ctx' = font ctx"
  shows "surface (snd (forEach (renderAnnotation tm sx sy) anns ctx')) =
           surface ctx' @
           concat (map (\<lambda>a. issued tm sx sy a ctx)
             (takeWhile (\<lambda>a. fst (renderAnnotation tm sx sy a ctx) = Completed) anns)) \<and>
         (fst (forEach (renderAnnotation tm sx sy) anns ctx') = Completed \<longleftrightarrow>
           (\<forall>a \<in> set anns. fst (renderAnnotation tm sx sy a ctx) = Completed))"
  using assms
proof (induction anns arbitrary: ctx')
  case Nil
  show ?case by simp
next
  case (Cons a as)
  let ?R = "renderAnnotation tm sx sy"
  obtain out c where step: "?R a ctx' = (out, c)" by (cases "?R a ctx'")
  from render_frame [of tm sx sy a ctx'] step obtain s f p d
    where c: "c = ctx'\<lparr>strokeStyle := s, fillStyle := f, path := p, surface := d\<rparr>" by auto
  have attrs: "lineWidth c = lineWidth ctx" "shadowColor c = shadowColor ctx"
    "shadowBlur c = shadowBlur ctx" "font c = font ctx"
    using Cons.prems by (simp_all add: c)
  have out: "fst (?R a ctx) = out"
    using render_outcome_indep [of tm sx sy a ctx ctx'] step by simp
  have surf: "surface c = surface ctx' @ issued tm sx sy a ctx"
    using render_surface [of tm sx sy a ctx'] step
      issued_indep [OF Cons.prems, of tm sx sy a] by simp
  show ?case
  proof (cases out)
    case Completed
    with Cons.IH [OF attrs] out surf step show ?thesis by simp
  next
    case (Threw e)
    with out have "fst (?R a ctx) \<noteq> Completed" by simp
    then have "issued tm sx sy a ctx = []" by (rule issued_thrown)
    with Threw out surf step show ?thesis by simp
  qed
qed

lemma renderPass_surface:
  assumes "canvasWidth ctx = width" and "canvasHeight ctx = height"
  shows "surface (snd (renderPass tm width height (Some anns) ctx)) =
           concat (map (\<lambda>a. issued tm (scaleX width) (scaleY height) a
                 (ctx\<lparr>surface := [], lineWidth := 3, shadowColor := ''rgba(0,0,0,0.8)'',
                      shadowBlur := 4, font := ''bold 14px Inter, sans-serif''\<rparr>))
             (takeWhile (\<lambda>a. fst (renderAnnotation tm (scaleX width) (scaleY height) a
                 (ctx\<lparr>surface := [], lineWidth := 3, shadowColor := ''rgba(0,0,0,0.8)'',
                      shadowBlur := 4, font := ''bold 14px Inter, sans-serif''\<rparr>)) = Completed)
                anns)) \<and>
         (fst (renderPass tm width height (Some anns) ctx) = Completed \<longleftrightarrow>
           (\<forall>a \<in> set anns. fst (renderAnnotation tm (scaleX width) (scaleY height) a
                 (ctx\<lparr>surface := [], lineWidth := 3, shadowColor := ''rgba(0,0,0,0.8)'',
                      shadowBlur := 4, font := ''bold 14px Inter, sans-serif''\<rparr>)) = Completed))"
proof -
  let ?c = "ctx\<lparr>surface := [], lineWidth := 3, shadowColor := ''rgba(0,0,0,0.8)'',
                shadowBlur := 4, font := ''bold 14px Inter, sans-serif''\<rparr>"
  let ?R = "renderAnnotation tm (scaleX width) (scaleY height)"
  have "renderPass tm width height (Some anns) ctx = forEach ?R anns ?c"
    using assms by (simp add: renderPass_def clearRect_def covers_def Let_def)
  with forEach_surface [of ?c ?c tm "scaleX width" "scaleY height" anns]
  show ?thesis by simp
qed

text \<open>
  Claim C2. An annotation whose tag is none of arrow, circle, box and highlight, or whose
  required coordinate field is absent or of the wrong length, raises nothing and issues no
  drawing call: nothing is appended to the surface and the current path is untouched (the
  callback only sets the stroke and fill styles, which the next annotation sets again). In
  a list it is transparent: the render pass of a list that contains it ends with the same
  outcome and the same surface as the pass of the list without it. And the other
  annotations are rendered, each in its array position: on a canvas of the size of the
  props, the surface that the pass leaves is the calls of the annotations before it
  followed by the calls of the annotations after it, in list order, each annotation with
  the calls that the callback issues for it on the cleared context with the defaults set
  (up to the first annotation that raises, if one does); the pass completes exactly when
  each of the other annotations completes.
\<close>

theorem malformed_annotation_dropped:
  assumes "malformed ann"
  defines "base \<equiv> \<lambda>ctx. ctx\<lparr>surface := [], lineWidth := 3, shadowColor := ''rgba(0,0,0,0.8)'',
                shadowBlur := 4, font := ''bold 14px Inter, sans-serif''\<rparr>"
  shows "fst (renderAnnotation tm sx sy ann ctx) = Completed \<and>
         issued tm sx sy ann ctx = [] \<and>
         path (snd (renderAnnotation tm sx sy ann ctx)) = path ctx \<and>
         fst (renderPass tm width height (Some (xs @ ann # ys)) ctx) =
           fst (renderPass tm width height (Some (xs @ ys)) ctx) \<and>
         surface (snd (renderPass tm width height (Some (xs @ ann # ys)) ctx)) =
           surface (snd (renderPass tm width height (Some (xs @ ys)) ctx)) \<and>
         (canvasWidth ctx = width \<and> canvasHeight ctx = height \<longrightarrow>
            surface (snd (renderPass tm width height (Some (xs @ ann # ys)) ctx)) =
              concat (map (\<lambda>a. issued tm (scaleX width) (scaleY height) a (base ctx))
                (takeWhile
                   (\<lambda>a. fst (renderAnnotation tm (scaleX width) (scaleY height) a (base ctx))
                          = Completed)
                   (xs @ ys))) \<and>
            (fst (renderPass tm width height (Some (xs @ ann # ys)) ctx) = Completed \<longleftrightarrow>
               (\<forall>a \<in> set (xs @ ys).
                  fst (renderAnnotation tm (scaleX width) (scaleY height) a (base ctx))
                    = Completed)))"
proof -
  have one: "fst (renderAnnotation tm sx sy ann ctx) = Completed \<and>
         issued tm sx sy ann ctx = [] \<and>
         path (snd (renderAnnotation tm sx sy ann ctx)) = path ctx"
    by (simp add: render_malformed [OF assms(1)] issued_def)
  have same: "fst (renderPass tm width height (Some (xs @ ann # ys)) ctx) =
           fst (renderPass tm width height (Some (xs @ ys)) ctx) \<and>
         surface (snd (renderPass tm width height (Some (xs @ ann # ys)) ctx)) =
           surface (snd (renderPass tm width height (Some (xs @ ys)) ctx))"
    using forEach_drop_malformed [OF assms(1)]
    by (simp add: renderPass_def Let_def)
  have others: "canvasWidth ctx = width \<and> canvasHeight ctx = height \<longrightarrow>
            surface (snd (renderPass tm width height (Some (xs @ ann # ys)) ctx)) =
              concat (map (\<lambda>a. issued tm (scaleX width) (scaleY height) a (base ctx))
                (takeWhile
                   (\<lambda>a. fst (renderAnnotation tm (scaleX width) (scaleY height) a (base ctx))
                          = Completed)
                   (xs @ ys))) \<and>
            (fst (renderPass tm width height (Some (xs @ ann # ys)) ctx) = Completed \<longleftrightarrow>
               (\<forall>a \<in> set (xs @ ys).
                  fst (renderAnnotation tm (scaleX width) (scaleY height) a (base ctx))
                    = Completed))"
  proof
    assume "canvasWidth ctx = width \<and> canvasHeight ctx = height"
    then have dims: "canvasWidth ctx = width" "canvasHeight ctx = height" by simp_all
    from renderPass_surface [OF dims, of tm "xs @ ys"] same
    show "surface (snd (renderPass tm width height (Some (xs @ ann # ys)) ctx)) =
              concat (map (\<lambda>a. issued tm (scaleX width) (scaleY height) a (base ctx))
                (takeWhile
                   (\<lambda>a. fst (renderAnnotation tm (scaleX width) (scaleY height) a (base ctx))
                          = Completed)
                   (xs @ ys))) \<and>
            (fst (renderPass tm width height (Some (xs @ ann # ys)) ctx) = Completed \<longleftrightarrow>
               (\<forall>a \<in> set (xs @ ys).
                  fst (renderAnnotation tm (scaleX width) (scaleY height) a (base ctx))
                    = Completed))"
      unfolding base_def by simp
  qed
  from one same others show ?thesis by blast
qed

theorem malformed_annotation_dropped_witness:
  "malformed shortBox \<and>
   fst (renderAnnotation fixedPitch (scaleX 800) (scaleY 600) shortBox (initialContext 800 600))
     = Completed \<and>
   issued fixedPitch (scaleX 800) (scaleY 600) shortBox (initialContext 800 600) = [] \<and>
   path (snd (renderAnnotation fixedPitch (scaleX 800) (scaleY 600) shortBox
     (initialContext 800 600))) = path (initialContext 800 600) \<and>
   fst (renderPass fixedPitch 800 600 (Some ([exampleBox] @ shortBox # [exampleCircle]))
     (initialContext 800 600)) =
   fst (renderPass fixedPitch 800 600 (Some ([exampleBox] @ [exampleCircle]))
     (initialContext 800 600)) \<and>
   surface (snd (renderPass fixedPitch 800 600 (Some ([exampleBox] @ shortBox # [exampleCircle]))
     (initialContext 800 600))) =
   surface (snd (renderPass fixedPitch 800 600 (Some ([exampleBox] @ [exampleCircle]))
     (initialContext 800 600))) \<and>
   (canvasWidth (initialContext 800 600) = 800 \<and> canvasHeight (initialContext 800 600) = 600) \<and>
   fst (renderPass fixedPitch 800 600 (Some ([exampleBox] @ shortBox # [exampleCircle]))
     (initialContext 800 600)) = Completed \<and>
   surface (snd (renderPass fixedPitch 800 600 (Some ([exampleBox] @ shortBox # [exampleCircle]))
     (initialContext 800 600))) =
     [Stroke (Rect 160 60 160 120)
        \<lparr>ink = ''#22c55e'', thickness = 3, shadow = ''rgba(0,0,0,0.8)'', blur = 4,
         typeface = ''bold 14px Inter, sans-serif''\<rparr>,
      Fill (Rect 154 30 52 24)
        \<lparr>ink = ''rgba(0,0,0,0.8)'', thickness = 3, shadow = ''rgba(0,0,0,0.8)'', blur = 4,
         typeface = ''bold 14px Inter, sans-serif''\<rparr>,
      Fill (Text ''crack'' 160 50)
        \<lparr>ink = ''#22c55e'', thickness = 3, shadow = ''rgba(0,0,0,0.8)'', blur = 4,
         typeface = ''bold 14px Inter, sans-serif''\<rparr>,
      Stroke (Path [Arc 400 300 40 0 (2 * pi)])
        \<lparr>ink = ''#ef4444'', thickness = 3, shadow = ''rgba(0,0,0,0.8)'', blur = 4,
         typeface = ''bold 14px Inter, sans-serif''\<rparr>,
      Fill (Rect 374 230 52 24)
        \<lparr>ink = ''rgba(0,0,0,0.8)'', thickness = 3, shadow = ''rgba(0,0,0,0.8)'', blur = 4,
         typeface = ''bold 14px Inter, sans-serif''\<rparr>,
      Fill (Text ''valve'' 380 250)
        \<lparr>ink = ''#ef4444'', thickness = 3, shadow = ''rgba(0,0,0,0.8)'', blur = 4,
         typeface = ''bold 14px Inter, sans-serif''\<rparr>]"
proof -
  have bad: "malformed shortBox"
    by (simp add: malformed_def shortBox_def blank_def)
  have dims: "canvasWidth (initialContext 800 600) = 800 \<and>
      canvasHeight (initialContext 800 600) = 600"
    by (simp add: initialContext_def)
  have b: "type exampleBox = ''box''" "box_2d exampleBox = Some [100, 200, 300, 400]"
    "label exampleBox = ''crack''"
    by (simp_all add: exampleBox_def blank_def)
  have c: "type exampleCircle = ''circle''" "center exampleCircle = Some [500, 500]"
    "label exampleCircle = ''valve''"
    by (simp_all add: exampleCircle_def blank_def)
  have r: "radiusOr (radius exampleCircle) 50 = 50"
    by (simp add: exampleCircle_def blank_def radiusOr_def)
  then have nn: "0 \<le> radiusOr (radius exampleCircle) 50 * (4 / 5)"
    by simp
  let ?base = "(initialContext 800 600)\<lparr>surface := [], lineWidth := 3,
      shadowColor := ''rgba(0,0,0,0.8)'', shadowBlur := 4,
      font := ''bold 14px Inter, sans-serif''\<rparr>"
  have sb: "strokeBrush ?base =
      \<lparr>ink = ''#000000'', thickness = 3, shadow = ''rgba(0,0,0,0.8)'', blur = 4,
       typeface = ''bold 14px Inter, sans-serif''\<rparr>"
    and fb: "fillBrush ?base =
      \<lparr>ink = ''#000000'', thickness = 3, shadow = ''rgba(0,0,0,0.8)'', blur = 4,
       typeface = ''bold 14px Inter, sans-serif''\<rparr>"
    by (simp_all add: strokeBrush_def fillBrush_def initialContext_def)
  have calls:
    "fst (renderAnnotation fixedPitch (scaleX 800) (scaleY 600) exampleBox ?base) = Completed"
    "fst (renderAnnotation fixedPitch (scaleX 800) (scaleY 600) exampleCircle ?base) = Completed"
    "issued fixedPitch (scaleX 800) (scaleY 600) exampleBox ?base =
       [Stroke (Rect 160 60 160 120)
          \<lparr>ink = ''#22c55e'', thickness = 3, shadow = ''rgba(0,0,0,0.8)'', blur = 4,
           typeface = ''bold 14px Inter, sans-serif''\<rparr>,
        Fill (Rect 154 30 52 24)
          \<lparr>ink = ''rgba(0,0,0,0.8)'', thickness = 3, shadow = ''rgba(0,0,0,0.8)'', blur = 4,
           typeface = ''bold 14px Inter, sans-serif''\<rparr>,
        Fill (Text ''crack'' 160 50)
          \<lparr>ink = ''#22c55e'', thickness = 3, shadow = ''rgba(0,0,0,0.8)'', blur = 4,
           typeface = ''bold 14px Inter, sans-serif''\<rparr>]"
    "issued fixedPitch (scaleX 800) (scaleY 600) exampleCircle ?base =
       [Stroke (Path [Arc 400 300 40 0 (2 * pi)])
          \<lparr>ink = ''#ef4444'', thickness = 3, shadow = ''rgba(0,0,0,0.8)'', blur = 4,
           typeface = ''bold 14px Inter, sans-serif''\<rparr>,
        Fill (Rect 374 230 52 24)
          \<lparr>ink = ''rgba(0,0,0,0.8)'', thickness = 3, shadow = ''rgba(0,0,0,0.8)'', blur = 4,
           typeface = ''bold 14px Inter, sans-serif''\<rparr>,
        Fill (Text ''valve'' 380 250)
          \<lparr>ink = ''#ef4444'', thickness = 3, shadow = ''rgba(0,0,0,0.8)'', blur = 4,
           typeface = ''bold 14px Inter, sans-serif''\<rparr>]"
    by (simp_all add: render_box [OF b(1,2)] issued_box [OF b(1,2)]
        render_circle [OF c(1,2) nn] issued_circle [OF c(1,2) nn] b(3) c(3) r sb fb
        scaleX_def scaleY_def fixedPitch_def)
  note inst = malformed_annotation_dropped [OF bad, of fixedPitch "scaleX 800" "scaleY 600"
      "initialContext 800 600" 800 600 "[exampleBox]" "[exampleCircle]"]
  from inst dims have
    "surface (snd (renderPass fixedPitch 800 600 (Some ([exampleBox] @ shortBox # [exampleCircle]))
       (initialContext 800 600))) =
     concat (map (\<lambda>a. issued fixedPitch (scaleX 800) (scaleY 600) a ?base)
       (takeWhile (\<lambda>a. fst (renderAnnotation fixedPitch (scaleX 800) (scaleY 600) a ?base)
          = Completed) ([exampleBox] @ [exampleCircle]))) \<and>
     (fst (renderPass fixedPitch 800 600 (Some ([exampleBox] @ shortBox # [exampleCircle]))
       (initialContext 800 600)) = Completed \<longleftrightarrow>
      (\<forall>a \<in> set ([exampleBox] @ [exampleCircle]).
         fst (renderAnnotation fixedPitch (scaleX 800) (scaleY 600) a ?base) = Completed))"
    by blast
  then have painted:
    "fst (renderPass fixedPitch 800 600 (Some ([exampleBox] @ shortBox # [exampleCircle]))
       (initialContext 800 600)) = Completed"
    "surface (snd (renderPass fixedPitch 800 600 (Some ([exampleBox] @ shortBox # [exampleCircle]))
       (initialContext 800 600))) =
     [Stroke (Rect 160 60 160 120)
        \<lparr>ink = ''#22c55e'', thickness = 3, shadow = ''rgba(0,0,0,0.8)'', blur = 4,
         typeface = ''bold 14px Inter, sans-serif''\<rparr>,
      Fill (Rect 154 30 52 24)
        \<lparr>ink = ''rgba(0,0,0,0.8)'', thickness = 3, shadow = ''rgba(0,0,0,0.8)'', blur = 4,
         typeface = ''bold 14px Inter, sans-serif''\<rparr>,
      Fill (Text ''crack'' 160 50)
        \<lparr>ink = ''#22c55e'', thickness = 3, shadow = ''rgba(0,0,0,0.8)'', blur = 4,
         typeface = ''bold 14px Inter, sans-serif''\<rparr>,
      Stroke (Path [Arc 400 300 40 0 (2 * pi)])
        \<lparr>ink = ''#ef4444'', thickness = 3, shadow = ''rgba(0,0,0,0.8)'', blur = 4,
         typeface = ''bold 14px Inter, sans-serif''\<rparr>,
      Fill (Rect 374 230 52 24)
        \<lparr>ink = ''rgba(0,0,0,0.8)'', thickness = 3, shadow = ''rgba(0,0,0,0.8)'', blur = 4,
         typeface = ''bold 14px Inter, sans-serif''\<rparr>,
      Fill (Text ''valve'' 380 250)
        \<lparr>ink = ''#ef4444'', thickness = 3, shadow = ''rgba(0,0,0,0.8)'', blur = 4,
         typeface = ''bold 14px Inter, sans-serif''\<rparr>]"
    by (simp_all add: calls)
  from inst bad dims painted show ?thesis
    by blast
qed

subsection \<open>Boxes and highlights\<close>

text \<open>
  A pass over a single annotation, on a canvas of the size of the props: the surface it
  leaves is what the callback issues on the cleared context with the defaults set.
\<close>

lemma renderPass_single:
  assumes "canvasWidth ctx = width" and "canvasHeight ctx = height"
  shows "surface (snd (renderPass tm width height (Some [ann]) ctx)) =
         issued tm (scaleX width) (scaleY height) ann
           (ctx\<lparr>surface := [], lineWidth := 3, shadowColor := ''rgba(0,0,0,0.8)'',
                shadowBlur := 4, font := ''bold 14px Inter, sans-serif''\<rparr>)"
proof -
  let ?c = "ctx\<lparr>surface := [], lineWidth := 3, shadowColor := ''rgba(0,0,0,0.8)'',
                shadowBlur := 4, font := ''bold 14px Inter, sans-serif''\<rparr>"
  let ?R = "renderAnnotation tm (scaleX width) (scaleY height)"
  have "renderPass tm width height (Some [ann]) ctx = forEach ?R [ann] ?c"
    using assms by (simp add: renderPass_def clearRect_def covers_def Let_def)
  moreover have "snd (forEach ?R [ann] ?c) = snd (?R ann ?c)"
    by (cases "?R ann ?c") (simp split: outcome.splits)
  ultimately show ?thesis
    by (simp add: render_surface)
qed

text \<open>
  Claim C3, as the spec states it, fails: on an 800 by 600 surface the box
  \<open>[100, 200, 300, 400]\<close> is stroked with origin \<open>(160, 60)\<close>, width 160 and height 120,
  not with origin \<open>(160, 80)\<close> and height 160.
\<close>

theorem example_box_counterexample:
  "stroked (surface (snd (renderPass fixedPitch 800 600 (Some [exampleBox])
      (initialContext 800 600)))) = [Rect 160 60 160 120] \<and>
   stroked (surface (snd (renderPass fixedPitch 800 600 (Some [exampleBox])
      (initialContext 800 600)))) \<noteq> [Rect 160 80 160 160]"
proof -
  have dims: "canvasWidth (initialContext 800 600) = 800"
    "canvasHeight (initialContext 800 600) = 600"
    by (simp_all add: initialContext_def)
  have b: "type exampleBox = ''box''" "box_2d exampleBox = Some [100, 200, 300, 400]"
    by (simp_all add: exampleBox_def blank_def)
  show ?thesis
    by (simp add: renderPass_single [OF dims] issued_box [OF b] scaleX_def scaleY_def)
qed

text \<open>
  Claim C3, amended. For a box annotation with \<open>box_2d = [100, 200, 300, 400]\<close> rendered on
  an 800 by 600 surface, the one rectangle that the pass strokes has origin \<open>(160, 60)\<close>,
  width 160 and height 120.
\<close>

theorem example_box_rectangle:
  assumes "type ann = ''box''" and "box_2d ann = Some [100, 200, 300, 400]"
    and "canvasWidth ctx = 800" and "canvasHeight ctx = 600"
  shows "stroked (surface (snd (renderPass tm 800 600 (Some [ann]) ctx))) =
         [Rect 160 60 160 120]"
  by (simp add: renderPass_single [OF assms(3,4)] issued_box [OF assms(1,2)]
      scaleX_def scaleY_def)

theorem example_box_rectangle_witness:
  "type exampleBox = ''box'' \<and> box_2d exampleBox = Some [100, 200, 300, 400] \<and>
   canvasWidth (initialContext 800 600) = 800 \<and> canvasHeight (initialContext 800 600) = 600 \<and>
   stroked (surface (snd (renderPass fixedPitch 800 600 (Some [exampleBox])
      (initialContext 800 600)))) = [Rect 160 60 160 120]"
proof -
  have h: "type exampleBox = ''box''" "box_2d exampleBox = Some [100, 200, 300, 400]"
    "canvasWidth (initialContext 800 600) = 800" "canvasHeight (initialContext 800 600) = 600"
    by (simp_all add: exampleBox_def blank_def initialContext_def)
  from example_box_rectangle [OF h] h show ?thesis
    by blast
qed

text \<open>
  Claim C4. For a box or highlight annotation with \<open>box_2d = [ymin, xmin, ymax, xmax]\<close> the
  callback completes and strokes exactly one shape, the rectangle with origin
  \<open>(xmin * scaleX, ymin * scaleY)\<close>, width \<open>(xmax - xmin) * scaleX\<close> and height
  \<open>(ymax - ymin) * scaleY\<close>, where \<open>scaleX = width / 1000\<close> and \<open>scaleY = height / 1000\<close>.
  Nothing is assumed about the order of the coordinates: a negative width or height reaches
  the rectangle call as computed, and nothing is raised.
\<close>

theorem box_rectangle_geometry:
  assumes "type ann = ''box'' \<or> type ann = ''highlight''"
    and "box_2d ann = Some [ymin, xmin, ymax, xmax]"
  shows "fst (renderAnnotation tm (scaleX width) (scaleY height) ann ctx) = Completed \<and>
         stroked (issued tm (scaleX width) (scaleY height) ann ctx) =
           [Rect (xmin * scaleX width) (ymin * scaleY height)
                 ((xmax - xmin) * scaleX width) ((ymax - ymin) * scaleY height)] \<and>
         scaleX width = width / 1000 \<and> scaleY height = height / 1000"
  using assms(1)
proof
  assume t: "type ann = ''box''"
  show ?thesis
    by (simp add: render_box [OF t assms(2)] issued_box [OF t assms(2)])
      (simp add: scaleX_def scaleY_def)
next
  assume t: "type ann = ''highlight''"
  show ?thesis
    by (simp add: render_highlight [OF t assms(2)] issued_highlight [OF t assms(2)])
      (simp add: scaleX_def scaleY_def)
qed

theorem box_rectangle_geometry_witness:
  "(type flippedHighlight = ''box'' \<or> type flippedHighlight = ''highlight'') \<and>
   box_2d flippedHighlight = Some [300, 400, 100, 200] \<and>
   fst (renderAnnotation fixedPitch (scaleX 800) (scaleY 600) flippedHighlight
          (initialContext 800 600)) = Completed \<and>
   stroked (issued fixedPitch (scaleX 800) (scaleY 600) flippedHighlight
          (initialContext 800 600)) = [Rect 320 180 (- 160) (- 120)]"
proof -
  have h: "type flippedHighlight = ''box'' \<or> type flippedHighlight = ''highlight''"
    "box_2d flippedHighlight = Some [300, 400, 100, 200]"
    by (simp_all add: flippedHighlight_def blank_def)
  from box_rectangle_geometry [OF h, of fixedPitch 800 600 "initialContext 800 600"] h
  show ?thesis by simp
qed

text \<open>
  Claim C7. A highlight with a four-element \<open>box_2d\<close> issues, in this order: the fill of
  the rectangle in the type colour with the suffix \<open>40\<close> (the alpha byte, a quarter
  opaque), the stroke of the same rectangle in the type colour, and the two calls of the
  label. A box issues the stroke of the rectangle and the two calls of the label, and none
  of the shapes it fills is that rectangle.
\<close>

theorem highlight_filled_box_stroked:
  assumes "box_2d ann = Some [ymin, xmin, ymax, xmax]"
  shows "(type ann = ''highlight'' \<longrightarrow>
            issued tm sx sy ann ctx =
              [Fill (Rect (xmin * sx) (ymin * sy) ((xmax - xmin) * sx) ((ymax - ymin) * sy))
                 ((fillBrush ctx)\<lparr>ink := typeColor ''highlight'' @ ''40''\<rparr>),
               Stroke (Rect (xmin * sx) (ymin * sy) ((xmax - xmin) * sx) ((ymax - ymin) * sy))
                 ((strokeBrush ctx)\<lparr>ink := typeColor ''highlight''\<rparr>),
               Fill (Rect (xmin * sx - 6) (ymin * sy - 10 - 20)
                       (tm (font ctx) (label ann) + 12) 24)
                 ((fillBrush ctx)\<lparr>ink := ''rgba(0,0,0,0.8)''\<rparr>),
               Fill (Text (label ann) (xmin * sx) (ymin * sy - 10))
                 ((fillBrush ctx)\<lparr>ink := typeColor ''highlight''\<rparr>)]) \<and>
         (type ann = ''box'' \<longrightarrow>
            issued tm sx sy ann ctx =
              [Stroke (Rect (xmin * sx) (ymin * sy) ((xmax - xmin) * sx) ((ymax - ymin) * sy))
                 ((strokeBrush ctx)\<lparr>ink := typeColor ''box''\<rparr>),
               Fill (Rect (xmin * sx - 6) (ymin * sy - 10 - 20)
                       (tm (font ctx) (label ann) + 12) 24)
                 ((fillBrush ctx)\<lparr>ink := ''rgba(0,0,0,0.8)''\<rparr>),
               Fill (Text (label ann) (xmin * sx) (ymin * sy - 10))
                 ((fillBrush ctx)\<lparr>ink := typeColor ''box''\<rparr>)] \<and>
            Rect (xmin * sx) (ymin * sy) ((xmax - xmin) * sx) ((ymax - ymin) * sy)
              \<notin> set (filled (issued tm sx sy ann ctx)))"
proof (intro conjI impI)
  assume t: "type ann = ''highlight''"
  show "issued tm sx sy ann ctx =
              [Fill (Rect (xmin * sx) (ymin * sy) ((xmax - xmin) * sx) ((ymax - ymin) * sy))
                 ((fillBrush ctx)\<lparr>ink := typeColor ''highlight'' @ ''40''\<rparr>),
               Stroke (Rect (xmin * sx) (ymin * sy) ((xmax - xmin) * sx) ((ymax - ymin) * sy))
                 ((strokeBrush ctx)\<lparr>ink := typeColor ''highlight''\<rparr>),
               Fill (Rect (xmin * sx - 6) (ymin * sy - 10 - 20)
                       (tm (font ctx) (label ann) + 12) 24)
                 ((fillBrush ctx)\<lparr>ink := ''rgba(0,0,0,0.8)''\<rparr>),
               Fill (Text (label ann) (xmin * sx) (ymin * sy - 10))
                 ((fillBrush ctx)\<lparr>ink := typeColor ''highlight''\<rparr>)]"
    by (simp add: issued_highlight [OF t assms] typeColor_simps)
next
  assume t: "type ann = ''box''"
  show "issued tm sx sy ann ctx =
              [Stroke (Rect (xmin * sx) (ymin * sy) ((xmax - xmin) * sx) ((ymax - ymin) * sy))
                 ((strokeBrush ctx)\<lparr>ink := typeColor ''box''\<rparr>),
               Fill (Rect (xmin * sx - 6) (ymin * sy - 10 - 20)
                       (tm (font ctx) (label ann) + 12) 24)
                 ((fillBrush ctx)\<lparr>ink := ''rgba(0,0,0,0.8)''\<rparr>),
               Fill (Text (label ann) (xmin * sx) (ymin * sy - 10))
                 ((fillBrush ctx)\<lparr>ink := typeColor ''box''\<rparr>)]"
    by (simp add: issued_box [OF t assms] typeColor_simps)
  show "Rect (xmin * sx) (ymin * sy) ((xmax - xmin) * sx) ((ymax - ymin) * sy)
              \<notin> set (filled (issued tm sx sy ann ctx))"
    by (simp add: issued_box [OF t assms])
qed

theorem highlight_filled_box_stroked_witness:
  "box_2d flippedHighlight = Some [300, 400, 100, 200] \<and>
   type flippedHighlight = ''highlight'' \<and>
   filled (issued fixedPitch (scaleX 800) (scaleY 600) flippedHighlight (initialContext 800 600))
     = [Rect 320 180 (- 160) (- 120), Rect 314 150 44 24, Text ''area'' 320 170] \<and>
   stroked (issued fixedPitch (scaleX 800) (scaleY 600) flippedHighlight (initialContext 800 600))
     = [Rect 320 180 (- 160) (- 120)] \<and>
   box_2d exampleBox = Some [100, 200, 300, 400] \<and>
   type exampleBox = ''box'' \<and>
   filled (issued fixedPitch (scaleX 800) (scaleY 600) exampleBox (initialContext 800 600))
     = [Rect 154 30 52 24, Text ''crack'' 160 50] \<and>
   stroked (issued fixedPitch (scaleX 800) (scaleY 600) exampleBox (initialContext 800 600))
     = [Rect 160 60 160 120]"
proof -
  have h: "box_2d flippedHighlight = Some [300, 400, 100, 200]"
    "type flippedHighlight = ''highlight''"
    and b: "box_2d exampleBox = Some [100, 200, 300, 400]" "type exampleBox = ''box''"
    by (simp_all add: flippedHighlight_def exampleBox_def blank_def)
  have l: "label flippedHighlight = ''area''" "label exampleBox = ''crack''"
    by (simp_all add: flippedHighlight_def exampleBox_def blank_def)
  from highlight_filled_box_stroked [OF h(1), of fixedPitch "scaleX 800" "scaleY 600"
      "initialContext 800 600"]
    highlight_filled_box_stroked [OF b(1), of fixedPitch "scaleX 800" "scaleY 600"
      "initialContext 800 600"] h b
  show ?thesis
    by (simp add: l scaleX_def scaleY_def fixedPitch_def)
qed

subsection \<open>Circles\<close>

text \<open>
  Claim C5, as stated, fails for a circle whose pixel radius is negative: \<^verbatim>\<open>arc\<close> raises,
  no circle and no label are drawn, and the exception ends the render pass. Here the
  radius is \<open>-5\<close> on a surface 800 wide, a pixel radius of \<open>-4\<close>.
\<close>

theorem negative_radius_counterexample:
  "fst (renderPass fixedPitch 800 600 (Some [negativeCircle]) (initialContext 800 600))
     = Threw IndexSizeError \<and>
   surface (snd (renderPass fixedPitch 800 600 (Some [negativeCircle]) (initialContext 800 600)))
     = []"
proof -
  have c: "type negativeCircle = ''circle''" "center negativeCircle = Some [500, 500]"
    "radiusOr (radius negativeCircle) 50 * scaleX 800 < 0"
    by (simp_all add: negativeCircle_def blank_def radiusOr_def scaleX_def)
  show ?thesis
    by (simp add: renderPass_def clearRect_def covers_def initialContext_def Let_def
        render_circle_negative [OF c])
qed

text \<open>
  Claim C5, amended. For a circle annotation with a two-element center whose pixel radius
  is not negative, the callback completes and strokes exactly one shape, the full arc
  centred at \<open>(center[0] * scaleX, center[1] * scaleY)\<close> with the pixel radius: the radius
  of the annotation when it is present and not zero, and 50 otherwise, times \<open>scaleX\<close>
  (never \<open>scaleY\<close>). A circle without a radius is stroked with radius \<open>50 * scaleX\<close>.
\<close>

theorem circle_radius_uses_scaleX:
  assumes "type ann = ''circle''" and "center ann = Some [x0, y0]"
    and "0 \<le> (case radius ann of None \<Rightarrow> 50 | Some v \<Rightarrow> if v = 0 then 50 else v) * scaleX width"
  shows "fst (renderAnnotation tm (scaleX width) (scaleY height) ann ctx) = Completed \<and>
         stroked (issued tm (scaleX width) (scaleY height) ann ctx) =
           [Path [Arc (x0 * scaleX width) (y0 * scaleY height)
                    ((case radius ann of None \<Rightarrow> 50 | Some v \<Rightarrow> if v = 0 then 50 else v)
                       * scaleX width)
                    0 (2 * pi)]] \<and>
         (radius ann = None \<longrightarrow>
            stroked (issued tm (scaleX width) (scaleY height) ann ctx) =
              [Path [Arc (x0 * scaleX width) (y0 * scaleY height) (50 * scaleX width)
                       0 (2 * pi)]])"
proof -
  from assms(3) have nn: "0 \<le> radiusOr (radius ann) 50 * scaleX width"
    by (simp add: radiusOr_def)
  show ?thesis
    by (auto simp add: render_circle [OF assms(1,2) nn] issued_circle [OF assms(1,2) nn]
        radiusOr_def)
qed

theorem circle_radius_uses_scaleX_witness:
  "type exampleCircle = ''circle'' \<and> center exampleCircle = Some [500, 500] \<and>
   0 \<le> (case radius exampleCircle of None \<Rightarrow> 50 | Some v \<Rightarrow> if v = 0 then 50 else v)
          * scaleX 800 \<and>
   radius exampleCircle = None \<and>
   fst (renderAnnotation fixedPitch (scaleX 800) (scaleY 600) exampleCircle
          (initialContext 800 600)) = Completed \<and>
   stroked (issued fixedPitch (scaleX 800) (scaleY 600) exampleCircle (initialContext 800 600))
     = [Path [Arc 400 300 40 0 (2 * pi)]]"
proof -
  have h: "type exampleCircle = ''circle''" "center exampleCircle = Some [500, 500]"
    "0 \<le> (case radius exampleCircle of None \<Rightarrow> 50 | Some v \<Rightarrow> if v = 0 then 50 else v)
          * scaleX 800"
    and n: "radius exampleCircle = None"
    by (simp_all add: exampleCircle_def blank_def scaleX_def)
  from circle_radius_uses_scaleX [OF h, of fixedPitch 600 "initialContext 800 600"] h n
  show ?thesis
    by (simp add: scaleX_def scaleY_def)
qed

subsection \<open>Labels\<close>

text \<open>
  Claim C8, as stated, fails in its last part: the backing plate of an empty label is not
  of zero width. With a text width of 0 the plate is 12 wide (the two paddings of 6). Here
  a box without a label on an 800 by 600 surface: the plate is the rectangle at
  \<open>(154, 30)\<close> of width 12 and height 24.
\<close>

theorem empty_label_counterexample:
  "filled (issued fixedPitch (scaleX 800) (scaleY 600) unlabelledBox (initialContext 800 600))
     = [Rect 154 30 12 24, Text [] 160 50] \<and>
   filled (issued fixedPitch (scaleX 800) (scaleY 600) unlabelledBox (initialContext 800 600))
     \<noteq> [Rect 154 30 0 24, Text [] 160 50]"
proof -
  have b: "type unlabelledBox = ''box''" "box_2d unlabelledBox = Some [100, 200, 300, 400]"
    by (simp_all add: unlabelledBox_def blank_def)
  have l: "label unlabelledBox = []"
    by (simp add: unlabelledBox_def blank_def)
  show ?thesis
    by (simp add: issued_box [OF b] l scaleX_def scaleY_def fixedPitch_def)
qed

text \<open>
  Claim C8, amended. \<^verbatim>\<open>drawLabel\<close> appends two calls to the surface: the fill of the
  backing rectangle at \<open>(anchorX - 6, anchorY - 20)\<close>, of width the measured text width
  plus 12 and of height 24, in \<open>rgba(0,0,0,0.8)\<close>, and then the fill of the text at the
  anchor in the colour it is given. Whenever a shape is drawn these are the last two calls
  of the annotation, in its type colour, with the anchor \<open>(x, y - 10)\<close> for a box or a
  highlight, \<open>(cx - 20, cy - r - 10)\<close> for a circle and \<open>(x1, y1 - 20)\<close> for an arrow.
  For an empty label whose measured width is 0 the plate is still drawn, 12 wide.
\<close>

theorem label_plate_and_text:
  "surface (drawLabel tm text ax ay color ctx) =
     surface ctx @
       [Fill (Rect (ax - 6) (ay - 20) (tm (font ctx) text + 12) 24)
          ((fillBrush ctx)\<lparr>ink := ''rgba(0,0,0,0.8)''\<rparr>),
        Fill (Text text ax ay) ((fillBrush ctx)\<lparr>ink := color\<rparr>)] \<and>
   ((type ann = ''box'' \<or> type ann = ''highlight'') \<and>
    box_2d ann = Some [ymin, xmin, ymax, xmax] \<longrightarrow>
      suffix
        [Fill (Rect (xmin * sx - 6) (ymin * sy - 10 - 20) (tm (font ctx) (label ann) + 12) 24)
           ((fillBrush ctx)\<lparr>ink := ''rgba(0,0,0,0.8)''\<rparr>),
         Fill (Text (label ann) (xmin * sx) (ymin * sy - 10))
           ((fillBrush ctx)\<lparr>ink := typeColor (type ann)\<rparr>)]
        (issued tm sx sy ann ctx)) \<and>
   (type ann = ''circle'' \<and> center ann = Some [cx, cy] \<and>
    0 \<le> radiusOr (radius ann) 50 * sx \<longrightarrow>
      suffix
        [Fill (Rect (cx * sx - 20 - 6) (cy * sy - radiusOr (radius ann) 50 * sx - 10 - 20)
                (tm (font ctx) (label ann) + 12) 24)
           ((fillBrush ctx)\<lparr>ink := ''rgba(0,0,0,0.8)''\<rparr>),
         Fill (Text (label ann) (cx * sx - 20) (cy * sy - radiusOr (radius ann) 50 * sx - 10))
           ((fillBrush ctx)\<lparr>ink := typeColor (type ann)\<rparr>)]
        (issued tm sx sy ann ctx)) \<and>
   (type ann = ''arrow'' \<and> start ann = Some [a, b] \<and> endp ann = Some [c, d] \<longrightarrow>
      suffix
        [Fill (Rect (a * sx - 6) (b * sy - 20 - 20) (tm (font ctx) (label ann) + 12) 24)
           ((fillBrush ctx)\<lparr>ink := ''rgba(0,0,0,0.8)''\<rparr>),
         Fill (Text (label ann) (a * sx) (b * sy - 20))
           ((fillBrush ctx)\<lparr>ink := typeColor (type ann)\<rparr>)]
        (issued tm sx sy ann ctx)) \<and>
   (tm (font ctx) [] = 0 \<longrightarrow>
      surface (drawLabel tm [] ax ay color ctx) =
        surface ctx @
          [Fill (Rect (ax - 6) (ay - 20) 12 24) ((fillBrush ctx)\<lparr>ink := ''rgba(0,0,0,0.8)''\<rparr>),
           Fill (Text [] ax ay) ((fillBrush ctx)\<lparr>ink := color\<rparr>)])"
proof (intro conjI impI)
  show "surface (drawLabel tm text ax ay color ctx) =
     surface ctx @
       [Fill (Rect (ax - 6) (ay - 20) (tm (font ctx) text + 12) 24)
          ((fillBrush ctx)\<lparr>ink := ''rgba(0,0,0,0.8)''\<rparr>),
        Fill (Text text ax ay) ((fillBrush ctx)\<lparr>ink := color\<rparr>)]"
    by (simp add: drawLabel_eq)
next
  assume h: "(type ann = ''box'' \<or> type ann = ''highlight'') \<and>
    box_2d ann = Some [ymin, xmin, ymax, xmax]"
  then have t: "type ann = ''box'' \<or> type ann = ''highlight''" and
    b: "box_2d ann = Some [ymin, xmin, ymax, xmax]" by simp_all
  from t show "suffix
        [Fill (Rect (xmin * sx - 6) (ymin * sy - 10 - 20) (tm (font ctx) (label ann) + 12) 24)
           ((fillBrush ctx)\<lparr>ink := ''rgba(0,0,0,0.8)''\<rparr>),
         Fill (Text (label ann) (xmin * sx) (ymin * sy - 10))
           ((fillBrush ctx)\<lparr>ink := typeColor (type ann)\<rparr>)]
        (issued tm sx sy ann ctx)"
  proof
    assume t: "type ann = ''box''"
    show ?thesis
      by (simp add: issued_box [OF t b] t typeColor_simps suffix_Cons)
  next
    assume t: "type ann = ''highlight''"
    show ?thesis
      by (simp add: issued_highlight [OF t b] t typeColor_simps suffix_Cons)
  qed
next
  assume h: "type ann = ''circle'' \<and> center ann = Some [cx, cy] \<and>
    0 \<le> radiusOr (radius ann) 50 * sx"
  then have t: "type ann = ''circle''" and c: "center ann = Some [cx, cy]"
    and r: "0 \<le> radiusOr (radius ann) 50 * sx" by simp_all
  show "suffix
        [Fill (Rect (cx * sx - 20 - 6) (cy * sy - radiusOr (radius ann) 50 * sx - 10 - 20)
                (tm (font ctx) (label ann) + 12) 24)
           ((fillBrush ctx)\<lparr>ink := ''rgba(0,0,0,0.8)''\<rparr>),
         Fill (Text (label ann) (cx * sx - 20) (cy * sy - radiusOr (radius ann) 50 * sx - 10))
           ((fillBrush ctx)\<lparr>ink := typeColor (type ann)\<rparr>)]
        (issued tm sx sy ann ctx)"
    by (simp add: issued_circle [OF t c r] t typeColor_simps suffix_Cons)
next
  assume h: "type ann = ''arrow'' \<and> start ann = Some [a, b] \<and> endp ann = Some [c, d]"
  then have t: "type ann = ''arrow''" and s: "start ann = Some [a, b]"
    and e: "endp ann = Some [c, d]" by simp_all
  show "suffix
        [Fill (Rect (a * sx - 6) (b * sy - 20 - 20) (tm (font ctx) (label ann) + 12) 24)
           ((fillBrush ctx)\<lparr>ink := ''rgba(0,0,0,0.8)''\<rparr>),
         Fill (Text (label ann) (a * sx) (b * sy - 20))
           ((fillBrush ctx)\<lparr>ink := typeColor (type ann)\<rparr>)]
        (issued tm sx sy ann ctx)"
    by (simp add: issued_arrow [OF t s e] t typeColor_simps suffix_Cons)
next
  assume "tm (font ctx) [] = 0"
  then show "surface (drawLabel tm [] ax ay color ctx) =
        surface ctx @
          [Fill (Rect (ax - 6) (ay - 20) 12 24) ((fillBrush ctx)\<lparr>ink := ''rgba(0,0,0,0.8)''\<rparr>),
           Fill (Text [] ax ay) ((fillBrush ctx)\<lparr>ink := color\<rparr>)]"
    by (simp add: drawLabel_eq)
qed

theorem label_plate_and_text_witness:
  "((type exampleBox = ''box'' \<or> type exampleBox = ''highlight'') \<and>
    box_2d exampleBox = Some [100, 200, 300, 400]) \<and>
   suffix
     [Fill (Rect 154 30 52 24) ((fillBrush (initialContext 800 600))\<lparr>ink := ''rgba(0,0,0,0.8)''\<rparr>),
      Fill (Text ''crack'' 160 50) ((fillBrush (initialContext 800 600))\<lparr>ink := ''#22c55e''\<rparr>)]
     (issued fixedPitch (scaleX 800) (scaleY 600) exampleBox (initialContext 800 600)) \<and>
   (type exampleCircle = ''circle'' \<and> center exampleCircle = Some [500, 500] \<and>
    0 \<le> radiusOr (radius exampleCircle) 50 * scaleX 800) \<and>
   suffix
     [Fill (Rect 374 230 52 24) ((fillBrush (initialContext 800 600))\<lparr>ink := ''rgba(0,0,0,0.8)''\<rparr>),
      Fill (Text ''valve'' 380 250) ((fillBrush (initialContext 800 600))\<lparr>ink := ''#ef4444''\<rparr>)]
     (issued fixedPitch (scaleX 800) (scaleY 600) exampleCircle (initialContext 800 600)) \<and>
   (type exampleArrow = ''arrow'' \<and> start exampleArrow = Some [0, 0] \<and>
    endp exampleArrow = Some [1000, 0]) \<and>
   suffix
     [Fill (Rect (- 6) (- 40) 44 24)
        ((fillBrush (initialContext 800 600))\<lparr>ink := ''rgba(0,0,0,0.8)''\<rparr>),
      Fill (Text ''turn'' 0 (- 20)) ((fillBrush (initialContext 800 600))\<lparr>ink := ''#eab308''\<rparr>)]
     (issued fixedPitch (scaleX 800) (scaleY 600) exampleArrow (initialContext 800 600)) \<and>
   fixedPitch (font (initialContext 800 600)) [] = 0 \<and>
   surface (drawLabel fixedPitch [] 160 50 ''#22c55e'' (initialContext 800 600)) =
     surface (initialContext 800 600) @
       [Fill (Rect 154 30 12 24) ((fillBrush (initialContext 800 600))\<lparr>ink := ''rgba(0,0,0,0.8)''\<rparr>),
        Fill (Text [] 160 50) ((fillBrush (initialContext 800 600))\<lparr>ink := ''#22c55e''\<rparr>)]"
proof -
  have bx: "(type exampleBox = ''box'' \<or> type exampleBox = ''highlight'') \<and>
      box_2d exampleBox = Some [100, 200, 300, 400]"
    and ci: "type exampleCircle = ''circle'' \<and> center exampleCircle = Some [500, 500] \<and>
      0 \<le> radiusOr (radius exampleCircle) 50 * scaleX 800"
    and ar: "type exampleArrow = ''arrow'' \<and> start exampleArrow = Some [0, 0] \<and>
      endp exampleArrow = Some [1000, 0]"
    and em: "fixedPitch (font (initialContext 800 600)) [] = 0"
    by (simp_all add: exampleBox_def exampleCircle_def exampleArrow_def blank_def
        radiusOr_def scaleX_def fixedPitch_def)
  have vals: "label exampleBox = ''crack''" "label exampleCircle = ''valve''"
    "label exampleArrow = ''turn''" "type exampleBox = ''box''"
    "radiusOr (radius exampleCircle) 50 = 50"
    by (simp_all add: exampleBox_def exampleCircle_def exampleArrow_def blank_def radiusOr_def)
  from
    label_plate_and_text [where tm = fixedPitch and ctx = "initialContext 800 600"
      and sx = "scaleX 800" and sy = "scaleY 600" and ann = exampleBox
      and ymin = 100 and xmin = 200 and ymax = 300 and xmax = 400
      and ax = 160 and ay = 50 and color = "''#22c55e''"]
    label_plate_and_text [where tm = fixedPitch and ctx = "initialContext 800 600"
      and sx = "scaleX 800" and sy = "scaleY 600" and ann = exampleCircle
      and cx = 500 and cy = 500]
    label_plate_and_text [where tm = fixedPitch and ctx = "initialContext 800 600"
      and sx = "scaleX 800" and sy = "scaleY 600" and ann = exampleArrow
      and a = 0 and b = 0 and c = 1000 and d = 0]
    bx ci ar em
  show ?thesis
    by (simp add: vals typeColor_simps scaleX_def scaleY_def fixedPitch_def)
qed

subsection \<open>Arrows\<close>

text \<open>\<open>atan2 dy dx\<close> is the direction angle of the vector \<open>(dx, dy)\<close>.\<close>

lemma sqrt_sum_squares_pos:
  fixes dx dy :: real
  assumes "0 < dx"
  shows "sqrt (dx\<^sup>2 + dy\<^sup>2) = dx * sqrt (1 + (dy / dx)\<^sup>2)"
proof -
  have "dx\<^sup>2 + dy\<^sup>2 = dx\<^sup>2 * (1 + (dy / dx)\<^sup>2)"
    using assms by (simp add: field_simps power2_eq_square)
  then have "sqrt (dx\<^sup>2 + dy\<^sup>2) = sqrt (dx\<^sup>2) * sqrt (1 + (dy / dx)\<^sup>2)"
    by (simp add: real_sqrt_mult)
  with assms show ?thesis by simp
qed

lemma sqrt_sum_squares_neg:
  fixes dx dy :: real
  assumes "dx < 0"
  shows "sqrt (dx\<^sup>2 + dy\<^sup>2) = - dx * sqrt (1 + (dy / dx)\<^sup>2)"
proof -
  have "dx\<^sup>2 + dy\<^sup>2 = dx\<^sup>2 * (1 + (dy / dx)\<^sup>2)"
    using assms by (simp add: field_simps power2_eq_square)
  then have "sqrt (dx\<^sup>2 + dy\<^sup>2) = sqrt (dx\<^sup>2) * sqrt (1 + (dy / dx)\<^sup>2)"
    by (simp add: real_sqrt_mult)
  with assms show ?thesis by simp
qed

lemma atan2_direction:
  "dx = sqrt (dx\<^sup>2 + dy\<^sup>2) * cos (atan2 dy dx) \<and>
   dy = sqrt (dx\<^sup>2 + dy\<^sup>2) * sin (atan2 dy dx)"
proof -
  have pos: "0 < sqrt (1 + (dy / dx)\<^sup>2)"
    by (simp add: add_pos_nonneg)
  consider "0 < dx" | "dx < 0" "0 \<le> dy" | "dx < 0" "dy < 0" | "dx = 0" by linarith
  then show ?thesis
  proof cases
    case 1
    then show ?thesis
      using pos by (simp add: atan2_def sqrt_sum_squares_pos cos_arctan sin_arctan)
  next
    case 2
    then show ?thesis
      using pos by (simp add: atan2_def sqrt_sum_squares_neg cos_arctan sin_arctan)
  next
    case 3
    then show ?thesis
      using pos
      by (simp add: atan2_def sqrt_sum_squares_neg cos_arctan sin_arctan cos_diff sin_diff)
  next
    case 4
    then show ?thesis by (simp add: atan2_def)
  qed
qed

lemma atan2_horizontal: "atan2 0 x = (if x < 0 then pi else 0)"
  by (simp add: atan2_def)

lemma wing_distance:
  fixes x2 y2 t :: real
  shows "((x2 - 15 * cos t) - x2)\<^sup>2 + ((y2 - 15 * sin t) - y2)\<^sup>2 = 15\<^sup>2"
proof -
  have "((x2 - 15 * cos t) - x2)\<^sup>2 + ((y2 - 15 * sin t) - y2)\<^sup>2 =
        (15 * cos t)\<^sup>2 + (15 * sin t)\<^sup>2"
    by simp
  also have "\<dots> = 15\<^sup>2 * ((cos t)\<^sup>2 + (sin t)\<^sup>2)"
    by (simp only: power_mult_distrib distrib_left)
  also have "\<dots> = 15\<^sup>2"
    by simp
  finally show ?thesis .
qed

text \<open>
  The angle between the line, seen from its end point back to its start, and a wing:
  the scalar product gives the cosine and the cross product the sine with its sign.
\<close>

lemma wing_angle:
  fixes x1 y1 x2 y2 len t p :: real
  assumes dx: "x2 - x1 = len * cos t" and dy: "y2 - y1 = len * sin t"
  shows "(x1 - x2) * ((x2 - 15 * cos (t - p)) - x2) + (y1 - y2) * ((y2 - 15 * sin (t - p)) - y2)
           = len * 15 * cos p"
    and "(x1 - x2) * ((x2 - 15 * cos (t + p)) - x2) + (y1 - y2) * ((y2 - 15 * sin (t + p)) - y2)
           = len * 15 * cos p"
    and "(x1 - x2) * ((y2 - 15 * sin (t - p)) - y2) - (y1 - y2) * ((x2 - 15 * cos (t - p)) - x2)
           = - (len * 15 * sin p)"
    and "(x1 - x2) * ((y2 - 15 * sin (t + p)) - y2) - (y1 - y2) * ((x2 - 15 * cos (t + p)) - x2)
           = len * 15 * sin p"
proof -
  have bx: "x1 - x2 = - (len * cos t)" and by': "y1 - y2 = - (len * sin t)"
    using dx dy by simp_all
  have unit: "cos t * cos t + sin t * sin t = 1"
    using sin_cos_squared_add3 [of t] by (simp add: add.commute)
  have c1: "cos t * cos (t - p) + sin t * sin (t - p) = cos p"
    using cos_diff [of t "t - p"] by simp
  have c2: "cos t * cos (t + p) + sin t * sin (t + p) = cos p"
    using cos_diff [of "t + p" t] by (simp add: mult.commute)
  have s1: "cos t * sin (t - p) - sin t * cos (t - p) = - sin p"
    using sin_diff [of "t - p" t] by (simp add: mult.commute)
  have s2: "cos t * sin (t + p) - sin t * cos (t + p) = sin p"
    using sin_diff [of "t + p" t] by (simp add: mult.commute)
  have "(x1 - x2) * ((x2 - 15 * cos (t - p)) - x2) + (y1 - y2) * ((y2 - 15 * sin (t - p)) - y2)
        = len * 15 * (cos t * cos (t - p) + sin t * sin (t - p))"
    by (simp add: bx by' algebra_simps)
  then show "(x1 - x2) * ((x2 - 15 * cos (t - p)) - x2) +
      (y1 - y2) * ((y2 - 15 * sin (t - p)) - y2) = len * 15 * cos p"
    by (simp only: c1)
  have "(x1 - x2) * ((x2 - 15 * cos (t + p)) - x2) + (y1 - y2) * ((y2 - 15 * sin (t + p)) - y2)
        = len * 15 * (cos t * cos (t + p) + sin t * sin (t + p))"
    by (simp add: bx by' algebra_simps)
  then show "(x1 - x2) * ((x2 - 15 * cos (t + p)) - x2) +
      (y1 - y2) * ((y2 - 15 * sin (t + p)) - y2) = len * 15 * cos p"
    by (simp only: c2)
  have "(x1 - x2) * ((y2 - 15 * sin (t - p)) - y2) - (y1 - y2) * ((x2 - 15 * cos (t - p)) - x2)
        = len * 15 * (cos t * sin (t - p) - sin t * cos (t - p))"
    by (simp add: bx by' algebra_simps)
  then show "(x1 - x2) * ((y2 - 15 * sin (t - p)) - y2) -
      (y1 - y2) * ((x2 - 15 * cos (t - p)) - x2) = - (len * 15 * sin p)"
    by (simp only: s1)
  have "(x1 - x2) * ((y2 - 15 * sin (t + p)) - y2) - (y1 - y2) * ((x2 - 15 * cos (t + p)) - x2)
        = len * 15 * (cos t * sin (t + p) - sin t * cos (t + p))"
    by (simp add: bx by' algebra_simps)
  then show "(x1 - x2) * ((y2 - 15 * sin (t + p)) - y2) -
      (y1 - y2) * ((x2 - 15 * cos (t + p)) - x2) = len * 15 * sin p"
    by (simp only: s2)
qed

text \<open>
  Claim C6. For an arrow annotation with two-element \<open>start\<close> and \<open>end\<close>, with
  \<open>(x1, y1)\<close> and \<open>(x2, y2)\<close> the mapped start and end points, the callback completes and
  issues first the stroke of the straight line from \<open>(x1, y1)\<close> to \<open>(x2, y2)\<close> and then
  the fill, in the type colour, of the triangle through the end point and the two wing
  points. With \<open>angle = atan2 (y2 - y1) (x2 - x1)\<close>, the direction angle of the line, each
  wing is at distance 15 from the end point, and seen from the end point the wings are at
  30 degrees from the way back to the start, one on each side (scalar and cross products
  with the vector back to the start are \<open>15 len cos 30\<degree>\<close> and \<open>\<mp> 15 len sin 30\<degree>\<close>). For
  the arrow from \<open>(0, 0)\<close> to \<open>(1000, 0)\<close> the line runs on \<open>y = 0\<close> from \<open>x = 0\<close> to
  \<open>x = width\<close>, and the wings are mirror images in the line.
\<close>

theorem arrow_line_and_head:
  fixes a b c d width height :: real
  assumes "type ann = ''arrow''" and "start ann = Some [a, b]" and "endp ann = Some [c, d]"
  defines "x1 \<equiv> a * scaleX width" and "y1 \<equiv> b * scaleY height"
    and "x2 \<equiv> c * scaleX width" and "y2 \<equiv> d * scaleY height"
  defines "angle \<equiv> atan2 (y2 - y1) (x2 - x1)"
    and "len \<equiv> sqrt ((x2 - x1)\<^sup>2 + (y2 - y1)\<^sup>2)"
  defines "wx1 \<equiv> x2 - 15 * cos (angle - pi / 6)" and "wy1 \<equiv> y2 - 15 * sin (angle - pi / 6)"
    and "wx2 \<equiv> x2 - 15 * cos (angle + pi / 6)" and "wy2 \<equiv> y2 - 15 * sin (angle + pi / 6)"
  shows "fst (renderAnnotation tm (scaleX width) (scaleY height) ann ctx) = Completed \<and>
         prefix
           [Stroke (Path [MoveTo x1 y1, LineTo x2 y2]) ((strokeBrush ctx)\<lparr>ink := ''#eab308''\<rparr>),
            Fill (Path [MoveTo x2 y2, LineTo wx1 wy1, LineTo wx2 wy2, LineTo x2 y2])
              ((fillBrush ctx)\<lparr>ink := ''#eab308''\<rparr>)]
           (issued tm (scaleX width) (scaleY height) ann ctx) \<and>
         x2 - x1 = len * cos angle \<and> y2 - y1 = len * sin angle \<and>
         (wx1 - x2)\<^sup>2 + (wy1 - y2)\<^sup>2 = 15\<^sup>2 \<and>
         (wx2 - x2)\<^sup>2 + (wy2 - y2)\<^sup>2 = 15\<^sup>2 \<and>
         (x1 - x2) * (wx1 - x2) + (y1 - y2) * (wy1 - y2) = len * 15 * cos (pi / 6) \<and>
         (x1 - x2) * (wx2 - x2) + (y1 - y2) * (wy2 - y2) = len * 15 * cos (pi / 6) \<and>
         (x1 - x2) * (wy1 - y2) - (y1 - y2) * (wx1 - x2) = - (len * 15 * sin (pi / 6)) \<and>
         (x1 - x2) * (wy2 - y2) - (y1 - y2) * (wx2 - x2) = len * 15 * sin (pi / 6) \<and>
         (a = 0 \<and> b = 0 \<and> c = 1000 \<and> d = 0 \<longrightarrow>
            x1 = 0 \<and> y1 = 0 \<and> x2 = width \<and> y2 = 0 \<and> wx1 = wx2 \<and> wy1 - y2 = - (wy2 - y2))"
proof -
  have compl: "fst (renderAnnotation tm (scaleX width) (scaleY height) ann ctx) = Completed"
    by (simp add: render_arrow [OF assms(1-3)])
  have calls: "prefix
           [Stroke (Path [MoveTo x1 y1, LineTo x2 y2]) ((strokeBrush ctx)\<lparr>ink := ''#eab308''\<rparr>),
            Fill (Path [MoveTo x2 y2, LineTo wx1 wy1, LineTo wx2 wy2, LineTo x2 y2])
              ((fillBrush ctx)\<lparr>ink := ''#eab308''\<rparr>)]
           (issued tm (scaleX width) (scaleY height) ann ctx)"
    by (simp add: issued_arrow [OF assms(1-3)] x1_def y1_def x2_def y2_def angle_def
        wx1_def wy1_def wx2_def wy2_def)
  have dir: "x2 - x1 = len * cos angle" "y2 - y1 = len * sin angle"
    using atan2_direction [of "x2 - x1" "y2 - y1"] by (simp_all add: len_def angle_def)
  have dist: "(wx1 - x2)\<^sup>2 + (wy1 - y2)\<^sup>2 = 15\<^sup>2" "(wx2 - x2)\<^sup>2 + (wy2 - y2)\<^sup>2 = 15\<^sup>2"
    unfolding wx1_def wy1_def wx2_def wy2_def by (rule wing_distance)+
  have ang:
    "(x1 - x2) * (wx1 - x2) + (y1 - y2) * (wy1 - y2) = len * 15 * cos (pi / 6)"
    "(x1 - x2) * (wx2 - x2) + (y1 - y2) * (wy2 - y2) = len * 15 * cos (pi / 6)"
    "(x1 - x2) * (wy1 - y2) - (y1 - y2) * (wx1 - x2) = - (len * 15 * sin (pi / 6))"
    "(x1 - x2) * (wy2 - y2) - (y1 - y2) * (wx2 - x2) = len * 15 * sin (pi / 6)"
    unfolding wx1_def wy1_def wx2_def wy2_def by (rule wing_angle [OF dir])+
  have flat: "a = 0 \<and> b = 0 \<and> c = 1000 \<and> d = 0 \<longrightarrow>
      x1 = 0 \<and> y1 = 0 \<and> x2 = width \<and> y2 = 0 \<and> wx1 = wx2 \<and> wy1 - y2 = - (wy2 - y2)"
  proof
    assume h: "a = 0 \<and> b = 0 \<and> c = 1000 \<and> d = 0"
    then have p: "x1 = 0" "y1 = 0" "x2 = width" "y2 = 0"
      by (simp_all add: x1_def y1_def x2_def y2_def scaleX_def)
    then have "angle = (if width < 0 then pi else 0)"
      by (simp add: angle_def atan2_horizontal)
    then have "wx1 = wx2 \<and> wy1 - y2 = - (wy2 - y2)"
      by (simp add: wx1_def wy1_def wx2_def wy2_def cos_diff cos_add sin_diff sin_add)
    with p show "x1 = 0 \<and> y1 = 0 \<and> x2 = width \<and> y2 = 0 \<and> wx1 = wx2 \<and> wy1 - y2 = - (wy2 - y2)"
      by simp
  qed
  from compl calls dir dist ang flat show ?thesis by blast
qed

theorem arrow_line_and_head_witness:
  "type exampleArrow = ''arrow'' \<and> start exampleArrow = Some [0, 0] \<and>
   endp exampleArrow = Some [1000, 0] \<and>
   fst (renderAnnotation fixedPitch (scaleX 800) (scaleY 600) exampleArrow
          (initialContext 800 600)) = Completed \<and>
   prefix
     [Stroke (Path [MoveTo 0 0, LineTo 800 0])
        ((strokeBrush (initialContext 800 600))\<lparr>ink := ''#eab308''\<rparr>),
      Fill (Path [MoveTo 800 0, LineTo (800 - 15 * (sqrt 3 / 2)) (15 / 2),
                  LineTo (800 - 15 * (sqrt 3 / 2)) (- (15 / 2)), LineTo 800 0])
        ((fillBrush (initialContext 800 600))\<lparr>ink := ''#eab308''\<rparr>)]
     (issued fixedPitch (scaleX 800) (scaleY 600) exampleArrow (initialContext 800 600))"
proof -
  have h: "type exampleArrow = ''arrow''" "start exampleArrow = Some [0, 0]"
    "endp exampleArrow = Some [1000, 0]"
    by (simp_all add: exampleArrow_def blank_def)
  from arrow_line_and_head [OF h, of fixedPitch 800 600 "initialContext 800 600"] h
  show ?thesis
    by (simp add: scaleX_def scaleY_def atan2_horizontal cos_30 sin_30)
qed

subsection \<open>The sanitised diagnosis\<close>

lemma arrayOrEmpty_sanitized: "sanitizedList v (arrayOrEmpty v)"
proof (cases v)
  case None
  then show ?thesis by (simp add: sanitizedList_def arrayOrEmpty_def)
next
  case (Some x)
  then show ?thesis by (cases x) (simp_all add: sanitizedList_def arrayOrEmpty_def)
qed

lemma orDefault_sanitized: "d \<noteq> [] \<Longrightarrow> sanitizedText v d (orDefault v d)"
proof (cases v)
  case None
  assume "d \<noteq> []"
  with None show ?thesis by (simp add: sanitizedText_def orDefault_def)
next
  case (Some x)
  assume "d \<noteq> []"
  with Some show ?thesis by (cases x) (simp_all add: sanitizedText_def orDefault_def)
qed

lemma analyzeImage_resolves:
  assumes "analyzeImage generateContent parse base64Image = Inr r"
  obtains reply parsed where
    "generateContent (stripDataUrl base64Image) = Inr (Some reply)" "reply \<noteq> []"
    "parse reply = Inr parsed" "sanitize parsed = Inr r"
  using assms
  by (auto simp: analyzeImage_def Let_def split: sum.splits option.splits if_splits)

lemma sanitize_fields:
  assumes "sanitize parsed = Inr r"
  shows "parsed \<noteq> JNull"
    and "object_detected r = orDefault (getProp parsed ''object_detected'') ''Unknown Object''"
    and "issue_detected r = orDefault (getProp parsed ''issue_detected'') ''Analysis Pending''"
    and "confidence r = orDefault (getProp parsed ''confidence'') ''Unknown''"
    and "safety_warnings r = arrayOrEmpty (getProp parsed ''safety_warnings'')"
    and "tools_required r = arrayOrEmpty (getProp parsed ''tools_required'')"
    and "household_tool_alternatives r =
           arrayOrEmpty (getProp parsed ''household_tool_alternatives'')"
    and "steps r = arrayOrEmpty (getProp parsed ''steps'')"
    and "annotations r = arrayOrEmpty (getProp parsed ''annotations'')"
    and "camera_guidance r = orDefault (getProp parsed ''camera_guidance'') ''None''"
    and "cause_explanation r =
           orDefault (getProp parsed ''cause_explanation'') ''No explanation provided.''"
    and "prevention_tips r = orDefault (getProp parsed ''prevention_tips'') ''No specific tips.''"
  using assms by (cases parsed; auto simp: sanitize_def)+

lemma example_run:
  "analyzeImage exampleModel exampleParse ''data:image/jpeg;base64,AAAA'' = Inr exampleResponse"
proof -
  have "stripDataUrl ''data:image/jpeg;base64,AAAA'' = ''AAAA''"
    by (simp add: stripDataUrl_def isWordChar_def)
  moreover have "exampleText \<noteq> []"
    by (simp add: exampleText_def)
  ultimately show ?thesis
    by (simp add: analyzeImage_def exampleModel_def exampleParse_def exampleResponse_def
        sanitize_def getProp_def orDefault_def arrayOrEmpty_def)
qed

text \<open>
  Claim C10, as stated, fails for the text fields: a truthy parsed value that is not a
  string is returned as it is. In the example run the model's \<^verbatim>\<open>object_detected\<close> is the
  number 42, the call resolves, and the field of the response is the number 42.
\<close>

theorem text_field_counterexample:
  "map_sum id object_detected
     (analyzeImage exampleModel exampleParse ''data:image/jpeg;base64,AAAA'') = Inr (JNumber 42) \<and>
   \<not> nonEmptyString (JNumber 42)"
  by (simp add: example_run exampleResponse_def)

text \<open>
  Claim C10, amended. Whenever \<^verbatim>\<open>analyzeImage\<close> resolves, the model answered with a
  non-empty text, the text parsed, and the response is built from the parsed value so that
  each of \<^verbatim>\<open>safety_warnings\<close>, \<^verbatim>\<open>tools_required\<close>, \<^verbatim>\<open>household_tool_alternatives\<close>,
  \<^verbatim>\<open>steps\<close> and \<^verbatim>\<open>annotations\<close> is an array (the parsed value when that is an array,
  \<open>[]\<close> otherwise), and each of \<^verbatim>\<open>object_detected\<close>, \<^verbatim>\<open>issue_detected\<close>,
  \<^verbatim>\<open>confidence\<close>, \<^verbatim>\<open>camera_guidance\<close>, \<^verbatim>\<open>cause_explanation\<close> and
  \<^verbatim>\<open>prevention_tips\<close> is a truthy value: the parsed value when that is truthy, of
  whatever JSON type, and the fixed default otherwise, hence a non-empty string whenever the
  parsed value is a string or falsy. Consequently the defensive check of the render pass is
  false on the \<^verbatim>\<open>annotations\<close> of a response: its branch is not taken.
\<close>

theorem sanitized_response:
  assumes "analyzeImage generateContent parse base64Image = Inr r"
  shows "isArray (Some (safety_warnings r)) \<and> isArray (Some (tools_required r)) \<and>
         isArray (Some (household_tool_alternatives r)) \<and> isArray (Some (steps r)) \<and>
         isArray (Some (annotations r)) \<and>
         truthy (Some (object_detected r)) \<and> truthy (Some (issue_detected r)) \<and>
         truthy (Some (confidence r)) \<and> truthy (Some (camera_guidance r)) \<and>
         truthy (Some (cause_explanation r)) \<and> truthy (Some (prevention_tips r)) \<and>
         \<not> defensiveCheck (Some (annotations r)) \<and>
         (\<exists>text parsed.
            generateContent (stripDataUrl base64Image) = Inr (Some text) \<and> text \<noteq> [] \<and>
            parse text = Inr parsed \<and> parsed \<noteq> JNull \<and>
            sanitizedList (getProp parsed ''safety_warnings'') (safety_warnings r) \<and>
            sanitizedList (getProp parsed ''tools_required'') (tools_required r) \<and>
            sanitizedList (getProp parsed ''household_tool_alternatives'')
              (household_tool_alternatives r) \<and>
            sanitizedList (getProp parsed ''steps'') (steps r) \<and>
            sanitizedList (getProp parsed ''annotations'') (annotations r) \<and>
            sanitizedText (getProp parsed ''object_detected'') ''Unknown Object''
              (object_detected r) \<and>
            sanitizedText (getProp parsed ''issue_detected'') ''Analysis Pending''
              (issue_detected r) \<and>
            sanitizedText (getProp parsed ''confidence'') ''Unknown'' (confidence r) \<and>
            sanitizedText (getProp parsed ''camera_guidance'') ''None'' (camera_guidance r) \<and>
            sanitizedText (getProp parsed ''cause_explanation'') ''No explanation provided.''
              (cause_explanation r) \<and>
            sanitizedText (getProp parsed ''prevention_tips'') ''No specific tips.''
              (prevention_tips r))"
proof -
  from assms obtain reply parsed where
    run: "generateContent (stripDataUrl base64Image) = Inr (Some reply)" "reply \<noteq> []"
      "parse reply = Inr parsed"
    and san: "sanitize parsed = Inr r"
    by (rule analyzeImage_resolves)
  note f = sanitize_fields [OF san]
  have lists:
    "sanitizedList (getProp parsed ''safety_warnings'') (safety_warnings r)"
    "sanitizedList (getProp parsed ''tools_required'') (tools_required r)"
    "sanitizedList (getProp parsed ''household_tool_alternatives'') (household_tool_alternatives r)"
    "sanitizedList (getProp parsed ''steps'') (steps r)"
    "sanitizedList (getProp parsed ''annotations'') (annotations r)"
    by (simp_all only: f arrayOrEmpty_sanitized)
  have texts:
    "sanitizedText (getProp parsed ''object_detected'') ''Unknown Object'' (object_detected r)"
    "sanitizedText (getProp parsed ''issue_detected'') ''Analysis Pending'' (issue_detected r)"
    "sanitizedText (getProp parsed ''confidence'') ''Unknown'' (confidence r)"
    "sanitizedText (getProp parsed ''camera_guidance'') ''None'' (camera_guidance r)"
    "sanitizedText (getProp parsed ''cause_explanation'') ''No explanation provided.''
       (cause_explanation r)"
    "sanitizedText (getProp parsed ''prevention_tips'') ''No specific tips.'' (prevention_tips r)"
    by (simp_all add: f orDefault_sanitized)
  from lists have arrays:
    "isArray (Some (safety_warnings r))" "isArray (Some (tools_required r))"
    "isArray (Some (household_tool_alternatives r))" "isArray (Some (steps r))"
    "isArray (Some (annotations r))"
    by (simp_all add: sanitizedList_def)
  from texts have truthies:
    "truthy (Some (object_detected r))" "truthy (Some (issue_detected r))"
    "truthy (Some (confidence r))" "truthy (Some (camera_guidance r))"
    "truthy (Some (cause_explanation r))" "truthy (Some (prevention_tips r))"
    by (simp_all add: sanitizedText_def)
  have guard: "\<not> defensiveCheck (Some (annotations r))"
    using arrays(5) by (cases "annotations r") (simp_all add: defensiveCheck_def)
  from run f(1) lists texts arrays truthies guard show ?thesis
    by blast
qed

theorem sanitized_response_witness:
  "analyzeImage exampleModel exampleParse ''data:image/jpeg;base64,AAAA'' = Inr exampleResponse \<and>
   isArray (Some (annotations exampleResponse)) \<and>
   isArray (Some (steps exampleResponse)) \<and>
   truthy (Some (object_detected exampleResponse)) \<and>
   truthy (Some (issue_detected exampleResponse)) \<and>
   \<not> defensiveCheck (Some (annotations exampleResponse))"
proof -
  have run: "analyzeImage exampleModel exampleParse ''data:image/jpeg;base64,AAAA'' =
      Inr exampleResponse"
    by (rule example_run)
  from sanitized_response [OF run] run show ?thesis
    by blast
qed

subsection \<open>The coordinate mapping\<close>

lemma lastPlace_normal:
  assumes "x \<noteq> 0" and "2 powr of_int k \<le> \<bar>x\<bar>" and "\<bar>x\<bar> < 2 powr of_int (k + 1)"
    and "- 1022 \<le> k"
  shows "lastPlace x = k - 52"
proof -
  have "\<lfloor>log 2 \<bar>x\<bar>\<rfloor> = k"
    using assms by (simp add: floor_log_eq_powr_iff)
  with assms(4) show ?thesis by (simp add: lastPlace_def)
qed

lemma round64_eval:
  assumes "x \<noteq> 0" and "2 powr of_int k \<le> \<bar>x\<bar>" and "\<bar>x\<bar> < 2 powr of_int (k + 1)"
    and "- 1022 \<le> k"
    and "tiesToEven (x / 2 powr of_int (k - 52)) = n"
    and "\<bar>real_of_int n * 2 powr real_of_int (k - 52)\<bar> < 2 powr 1024"
  shows "round64 x = Some (real_of_int n * 2 powr real_of_int (k - 52))"
  using assms(1,5,6) lastPlace_normal [OF assms(1-4)]
  by (simp add: round64_def Let_def)

lemma round64_scale_1001: "round64 (1001 / 1000) = Some (4508103226997866 / 2 ^ 52)"
  using round64_eval [of "1001 / 1000" 0 4508103226997866]
  by (simp add: tiesToEven_def powr_neg_numeral)

lemma round64_product_1001: "round64 (1000 * (4508103226997866 / 2 ^ 52)) = Some (8804889115230207 / 2 ^ 43)"
  using round64_eval [of "1000 * (4508103226997866 / 2 ^ 52)" 9 8804889115230207]
  by (simp add: tiesToEven_def powr_neg_numeral)

lemma round64_scale_800: "round64 (800 / 1000) = Some (3602879701896397 / 2 ^ 52)"
  using round64_eval [of "800 / 1000" "- 1" 7205759403792794]
  by (simp add: tiesToEven_def powr_neg_numeral)

lemma round64_product_800: "round64 (200 * (3602879701896397 / 2 ^ 52)) = Some 160"
  using round64_eval [of "200 * (3602879701896397 / 2 ^ 52)" 7 5629499534213120]
  by (simp add: tiesToEven_def powr_neg_numeral)

lemma tiesToEven_close: "\<bar>real_of_int (tiesToEven t) - t\<bar> \<le> 1 / 2"
proof -
  have "real_of_int \<lfloor>t\<rfloor> \<le> t" and "t < real_of_int \<lfloor>t\<rfloor> + 1"
    by linarith+
  then show ?thesis
    by (auto simp: tiesToEven_def Let_def)
qed

lemma round64_zero: "round64 0 = Some 0"
  by (simp add: round64_def)

text \<open>In the normal range the result is finite unless it overflows, within half a unit
  in the last place, that is within the relative error \<open>2\<^sup>-\<^sup>5\<^sup>3\<close>.\<close>

lemma round64_normal:
  assumes lo: "2 powr - 1022 \<le> \<bar>x\<bar>" and hi: "\<bar>x\<bar> * (1 + 2 powr - 53) < 2 powr 1024"
  shows "\<exists>r. round64 x = Some r \<and> \<bar>r - x\<bar> \<le> 2 powr - 53 * \<bar>x\<bar>"
proof -
  have pos: "0 < \<bar>x\<bar>"
    using lo by (smt (verit) powr_gt_zero)
  then have nz: "x \<noteq> 0" by simp
  define k where "k = \<lfloor>log 2 \<bar>x\<bar>\<rfloor>"
  have "- 1022 \<le> log 2 \<bar>x\<bar>"
    using lo pos by (simp add: le_log_iff)
  then have k_lo: "- 1022 \<le> k"
    unfolding k_def by (simp add: le_floor_iff)
  have "real_of_int k \<le> log 2 \<bar>x\<bar>"
    unfolding k_def by simp
  then have pk: "2 powr real_of_int k \<le> \<bar>x\<bar>"
    using pos by (simp add: le_log_iff)
  have lp: "lastPlace x = k - 52"
    using k_lo by (simp add: lastPlace_def k_def)
  define g where "g = 2 powr real_of_int (k - 52)"
  have g_pos: "0 < g" by (simp add: g_def)
  have g_eq: "g = 2 powr real_of_int k * 2 powr - 52"
    by (simp add: g_def powr_add [symmetric])
  define r where "r = real_of_int (tiesToEven (x / g)) * g"
  have "\<bar>r - x\<bar> = \<bar>real_of_int (tiesToEven (x / g)) - x / g\<bar> * g"
  proof -
    have "r - x = (real_of_int (tiesToEven (x / g)) - x / g) * g"
      using g_pos by (simp add: r_def field_simps)
    then show ?thesis
      using g_pos by (simp add: abs_mult)
  qed
  also have "\<dots> \<le> 1 / 2 * g"
    using tiesToEven_close [of "x / g"] g_pos by (simp add: mult_right_mono)
  also have "\<dots> = 2 powr real_of_int k * 2 powr - 53"
  proof -
    have "(2::real) powr - 53 = 1 / 2 * 2 powr - 52"
      by (simp add: powr_neg_numeral)
    then show ?thesis by (simp add: g_eq)
  qed
  also have "\<dots> \<le> \<bar>x\<bar> * 2 powr - 53"
    using pk by (simp add: mult_right_mono)
  finally have err: "\<bar>r - x\<bar> \<le> 2 powr - 53 * \<bar>x\<bar>"
    by (simp add: mult.commute)
  then have "\<bar>r\<bar> \<le> \<bar>x\<bar> * (1 + 2 powr - 53)"
    by (simp add: algebra_simps)
  with hi have fin: "\<bar>r\<bar> < 2 powr 1024" by linarith
  have "round64 x = Some r"
    using nz fin by (simp add: round64_def lp r_def g_def Let_def)
  with err show ?thesis by blast
qed

lemma toPixel64_zero:
  assumes "1 \<le> E" and "E < 2 powr 1023"
  shows "toPixel64 0 E = Some 0"
proof -
  have lo: "2 powr - 1022 \<le> \<bar>E / 1000\<bar>"
  proof -
    have "(2::real) powr - 1022 \<le> 2 powr - 10"
      by (rule powr_mono) simp_all
    also have "\<dots> \<le> 1 / 1000"
      by (simp add: powr_neg_numeral)
    also have "\<dots> \<le> \<bar>E / 1000\<bar>"
      using assms(1) by simp
    finally show ?thesis .
  qed
  have hi: "\<bar>E / 1000\<bar> * (1 + 2 powr - 53) < 2 powr 1024"
  proof -
    have "(1::real) + 2 powr - 53 \<le> 2"
      by (simp add: powr_neg_numeral)
    moreover have "0 \<le> \<bar>E / 1000\<bar>" by simp
    ultimately have "\<bar>E / 1000\<bar> * (1 + 2 powr - 53) \<le> \<bar>E / 1000\<bar> * 2"
      by (rule mult_left_mono)
    also have "\<dots> \<le> E * 2"
      using assms(1) by simp
    also have "\<dots> < 2 powr 1023 * 2"
      using assms(2) by simp
    also have "\<dots> = 2 powr 1024"
      by simp
    finally show ?thesis .
  qed
  from round64_normal [OF lo hi] obtain s where "round64 (E / 1000) = Some s"
    by blast
  then show ?thesis
    by (simp add: toPixel64_def div64_def mul64_def round64_zero)
qed

lemma toPixel64_bound:
  assumes E: "1 \<le> E" and c: "1 \<le> \<bar>c\<bar>" and fin: "\<bar>c * E / 1000\<bar> < 2 powr 1023"
  shows "\<exists>p. toPixel64 c E = Some p \<and>
           \<bar>p - c * E / 1000\<bar> \<le> (2 powr - 52 + 2 powr - 106) * \<bar>c * E / 1000\<bar>"
proof -
  define u :: real where "u = 2 powr - 53"
  define q where "q = E / 1000"
  have u_pos: "0 < u" and u_small: "u \<le> 1 / 4"
    and u2: "2 * u + u * u = 2 powr - 52 + 2 powr - 106"
    by (simp_all add: u_def powr_neg_numeral)
  have q_lo: "1 / 1000 \<le> q" and q_pos: "0 < q"
    using E by (simp_all add: q_def)
  have cq: "\<bar>c * E / 1000\<bar> = \<bar>c\<bar> * q"
    using q_pos by (simp add: q_def abs_mult)
  have q_le: "q \<le> \<bar>c\<bar> * q"
    using c q_pos by simp
  have tiny: "(2::real) powr - 1022 \<le> 1 / 2000"
  proof -
    have "(2::real) powr - 1022 \<le> 2 powr - 11"
      by (rule powr_mono) simp_all
    also have "\<dots> \<le> 1 / 2000"
      by (simp add: powr_neg_numeral)
    finally show ?thesis .
  qed
  have big: "(2::real) powr 1023 * 2 = 2 powr 1024"
    by simp
  have lo1: "2 powr - 1022 \<le> \<bar>q\<bar>"
    using tiny q_lo by simp
  have hi1: "\<bar>q\<bar> * (1 + 2 powr - 53) < 2 powr 1024"
  proof -
    have "\<bar>q\<bar> * (1 + u) \<le> \<bar>q\<bar> * 2"
      using u_small by (intro mult_left_mono) simp_all
    also have "\<dots> \<le> (\<bar>c\<bar> * q) * 2"
      using q_le q_pos by simp
    also have "\<dots> < 2 powr 1023 * 2"
      using fin cq by simp
    finally show ?thesis
      by (simp only: big u_def)
  qed
  from round64_normal [OF lo1 hi1] obtain s
    where s: "round64 q = Some s" and s_err: "\<bar>s - q\<bar> \<le> u * \<bar>q\<bar>"
    by (auto simp: u_def)
  have s_lo: "q * (1 - u) \<le> s" and s_hi: "s \<le> q * (1 + u)"
    using s_err q_pos by (simp_all add: algebra_simps abs_le_iff)
  have half: "q / 2 \<le> q * (1 - u)"
  proof -
    have "q * (1 / 2) \<le> q * (1 - u)"
      using u_small q_pos by (intro mult_left_mono) simp_all
    then show ?thesis by simp
  qed
  have s_pos: "0 < s"
    using s_lo half q_pos by linarith
  have cs: "\<bar>c * s\<bar> = \<bar>c\<bar> * s"
    using s_pos by (simp add: abs_mult)
  have cs_hi: "\<bar>c\<bar> * s \<le> (\<bar>c\<bar> * q) * (1 + u)"
  proof -
    have "\<bar>c\<bar> * s \<le> \<bar>c\<bar> * (q * (1 + u))"
      using s_hi by (intro mult_left_mono) simp_all
    then show ?thesis by (simp add: mult.assoc)
  qed
  have lo2: "2 powr - 1022 \<le> \<bar>c * s\<bar>"
  proof -
    have "1 / 2000 \<le> q / 2"
      using q_lo by simp
    also have "\<dots> \<le> s"
      using half s_lo by linarith
    also have "\<dots> \<le> \<bar>c\<bar> * s"
      using c s_pos by simp
    finally show ?thesis
      using tiny cs by linarith
  qed
  have sq: "(1 + u) * (1 + u) \<le> 2"
  proof -
    have "(1 + u) * (1 + u) \<le> (1 + 1 / 4) * (1 + 1 / 4)"
      using u_small u_pos by (intro mult_mono) simp_all
    then show ?thesis by simp
  qed
  have hi2: "\<bar>c * s\<bar> * (1 + 2 powr - 53) < 2 powr 1024"
  proof -
    have "\<bar>c * s\<bar> * (1 + u) \<le> ((\<bar>c\<bar> * q) * (1 + u)) * (1 + u)"
      using cs_hi u_pos by (simp add: cs mult_right_mono)
    also have "\<dots> = (\<bar>c\<bar> * q) * ((1 + u) * (1 + u))"
      by (simp add: mult.assoc)
    also have "\<dots> \<le> (\<bar>c\<bar> * q) * 2"
      using sq q_pos by (intro mult_left_mono) simp_all
    also have "\<dots> < 2 powr 1023 * 2"
      using fin cq by simp
    finally show ?thesis
      by (simp only: big u_def)
  qed
  from round64_normal [OF lo2 hi2] obtain p
    where p: "round64 (c * s) = Some p" and p_err: "\<bar>p - c * s\<bar> \<le> u * \<bar>c * s\<bar>"
    by (auto simp: u_def)
  have run: "toPixel64 c E = Some p"
    using s p by (simp add: toPixel64_def div64_def mul64_def q_def)
  have "\<bar>p - c * q\<bar> \<le> \<bar>p - c * s\<bar> + \<bar>c * s - c * q\<bar>"
    by linarith
  also have "\<bar>c * s - c * q\<bar> = \<bar>c\<bar> * \<bar>s - q\<bar>"
    by (simp add: abs_mult right_diff_distrib [symmetric])
  also have "\<bar>p - c * s\<bar> + \<bar>c\<bar> * \<bar>s - q\<bar> \<le> u * ((\<bar>c\<bar> * q) * (1 + u)) + \<bar>c\<bar> * (u * q)"
  proof -
    have "\<bar>p - c * s\<bar> \<le> u * ((\<bar>c\<bar> * q) * (1 + u))"
    proof -
      have "u * \<bar>c * s\<bar> \<le> u * ((\<bar>c\<bar> * q) * (1 + u))"
        using cs_hi u_pos by (simp add: cs)
      with p_err show ?thesis by linarith
    qed
    moreover have "\<bar>c\<bar> * \<bar>s - q\<bar> \<le> \<bar>c\<bar> * (u * q)"
      using s_err q_pos by (intro mult_left_mono) simp_all
    ultimately show ?thesis by linarith
  qed
  also have "\<dots> = (2 * u + u * u) * (\<bar>c\<bar> * q)"
    by (simp add: algebra_simps)
  finally have "\<bar>p - c * q\<bar> \<le> (2 powr - 52 + 2 powr - 106) * (\<bar>c\<bar> * q)"
    by (simp only: u2)
  moreover have "c * q = c * E / 1000"
    by (simp add: q_def)
  ultimately have "\<bar>p - c * E / 1000\<bar> \<le> (2 powr - 52 + 2 powr - 106) * \<bar>c * E / 1000\<bar>"
    by (simp only: cq)
  with run show ?thesis by blast
qed

lemma tiesToEven_range: "\<lfloor>t\<rfloor> \<le> tiesToEven t \<and> tiesToEven t \<le> \<lfloor>t\<rfloor> + 1"
  by (simp add: tiesToEven_def Let_def)

lemma tiesToEven_nearest:
  "\<bar>real_of_int (tiesToEven t) - t\<bar> \<le> \<bar>real_of_int j - t\<bar>"
proof -
  have f: "real_of_int \<lfloor>t\<rfloor> \<le> t" "t < real_of_int \<lfloor>t\<rfloor> + 1"
    by linarith+
  have "j \<le> \<lfloor>t\<rfloor> \<or> \<lfloor>t\<rfloor> + 1 \<le> j" by linarith
  then have j: "real_of_int j \<le> real_of_int \<lfloor>t\<rfloor> \<or> real_of_int \<lfloor>t\<rfloor> + 1 \<le> real_of_int j"
    by (metis of_int_le_iff of_int_add of_int_1)
  from f j show ?thesis
    by (auto simp: tiesToEven_def Let_def)
qed

lemma powr_shift:
  assumes "e0 \<le> e"
  shows "(2::real) powr real_of_int e = real_of_int (2 ^ nat (e - e0)) * 2 powr real_of_int e0"
proof -
  have "(2::real) powr real_of_int e = 2 powr real_of_int (e - e0) * 2 powr real_of_int e0"
    by (simp add: powr_add [symmetric])
  also have "(2::real) powr real_of_int (e - e0) = 2 ^ nat (e - e0)"
    using assms powr_real_of_int [of 2 "e - e0"] by simp
  finally show ?thesis by simp
qed

lemma round64_parts:
  assumes "round64 x = Some r" and "x \<noteq> 0"
  shows "r = real_of_int (tiesToEven (x / 2 powr real_of_int (lastPlace x))) *
             2 powr real_of_int (lastPlace x)"
    and "\<bar>r\<bar> < 2 powr 1024"
  using assms by (auto simp: round64_def Let_def split: if_splits)

lemma floor_log_bounds:
  assumes "x \<noteq> 0"
  shows "2 powr real_of_int \<lfloor>log 2 \<bar>x\<bar>\<rfloor> \<le> \<bar>x\<bar>"
    and "\<bar>x\<bar> < 2 powr real_of_int (\<lfloor>log 2 \<bar>x\<bar>\<rfloor> + 1)"
proof -
  have pos: "0 < \<bar>x\<bar>" using assms by simp
  from floor_log_eq_powr_iff [OF pos, of 2 "\<lfloor>log 2 \<bar>x\<bar>\<rfloor>"]
  show "2 powr real_of_int \<lfloor>log 2 \<bar>x\<bar>\<rfloor> \<le> \<bar>x\<bar>"
    and "\<bar>x\<bar> < 2 powr real_of_int (\<lfloor>log 2 \<bar>x\<bar>\<rfloor> + 1)"
    by simp_all
qed

text \<open>The result of the rounding is a nearest binary64 value.\<close>

lemma round64_nearest:
  assumes r: "round64 x = Some r" and y: "binary64 y"
  shows "\<bar>r - x\<bar> \<le> \<bar>y - x\<bar>"
proof (cases "x = 0")
  case True
  with r show ?thesis by (simp add: round64_def)
next
  case False
  define e0 where "e0 = lastPlace x"
  define g where "g = 2 powr real_of_int e0"
  define n where "n = tiesToEven (x / g)"
  have g_pos: "0 < g" by (simp add: g_def)
  have r_eq: "r = real_of_int n * g"
    using round64_parts(1) [OF r False] by (simp add: n_def g_def e0_def)
  have grid: "\<bar>r - x\<bar> \<le> \<bar>real_of_int j * g - x\<bar>" for j
  proof -
    have "\<bar>r - x\<bar> = \<bar>real_of_int n - x / g\<bar> * g"
    proof -
      have "r - x = (real_of_int n - x / g) * g"
        using g_pos by (simp add: r_eq field_simps)
      then show ?thesis using g_pos by (simp add: abs_mult)
    qed
    also have "\<dots> \<le> \<bar>real_of_int j - x / g\<bar> * g"
      using tiesToEven_nearest [of "x / g" j] g_pos by (simp add: n_def mult_right_mono)
    also have "\<dots> = \<bar>real_of_int j * g - x\<bar>"
    proof -
      have "real_of_int j * g - x = (real_of_int j - x / g) * g"
        using g_pos by (simp add: field_simps)
      then show ?thesis using g_pos by (simp add: abs_mult)
    qed
    finally show ?thesis .
  qed
  from y obtain m e where m: "\<bar>m\<bar> < 2 ^ 53" and e: "- 1074 \<le> e" "e \<le> 971"
    and y_eq: "y = real_of_int m * 2 powr real_of_int e"
    by (auto simp: binary64_def)
  show ?thesis
  proof (cases "e0 \<le> e")
    case True
    have "y = real_of_int (m * 2 ^ nat (e - e0)) * g"
      using powr_shift [OF True] by (simp add: y_eq g_def)
    with grid [of "m * 2 ^ nat (e - e0)"] show ?thesis by simp
  next
    case below: False
    define k where "k = \<lfloor>log 2 \<bar>x\<bar>\<rfloor>"
    from below e(1) have "- 1074 < e0" by simp
    then have e0_eq: "e0 = k - 52"
      by (simp add: e0_def lastPlace_def k_def max_def split: if_splits)
    have pk: "2 powr real_of_int k \<le> \<bar>x\<bar>"
      using floor_log_bounds(1) [OF False] by (simp add: k_def)
    have pk_grid: "2 powr real_of_int k = real_of_int (2 ^ 52) * g"
    proof -
      have "(2::real) powr real_of_int k = 2 powr (52 + real_of_int (k - 52))"
        by simp
      also have "\<dots> = 2 powr 52 * 2 powr real_of_int (k - 52)"
        by (rule powr_add)
      also have "(2::real) powr 52 = real_of_int (2 ^ 52)"
        by simp
      finally show ?thesis
        by (simp only: g_def e0_eq)
    qed
    have y_small: "\<bar>y\<bar> < 2 powr real_of_int k"
    proof -
      have "real_of_int \<bar>m\<bar> < 2 ^ 53"
        using m by (metis of_int_less_numeral_power_cancel_iff)
      moreover have "(2::real) powr real_of_int e \<le> 2 powr real_of_int (e0 - 1)"
        using below by (intro powr_mono) simp_all
      ultimately have "real_of_int \<bar>m\<bar> * 2 powr real_of_int e < 2 ^ 53 * 2 powr real_of_int (e0 - 1)"
        by (intro mult_less_le_imp_less) simp_all
      also have "\<dots> = 2 powr 53 * 2 powr real_of_int (e0 - 1)"
        by simp
      also have "\<dots> = 2 powr (53 + real_of_int (e0 - 1))"
        by (rule powr_add [symmetric])
      also have "\<dots> = 2 powr real_of_int k"
        by (simp add: e0_eq)
      finally show ?thesis
        by (simp add: y_eq abs_mult)
    qed
    show ?thesis
    proof (cases "0 < x")
      case True
      from grid [of "2 ^ 52"] pk_grid have "\<bar>r - x\<bar> \<le> \<bar>2 powr real_of_int k - x\<bar>"
        by simp
      with pk y_small True show ?thesis by linarith
    next
      case neg: False
      from grid [of "- (2 ^ 52)"] pk_grid have "\<bar>r - x\<bar> \<le> \<bar>- (2 powr real_of_int k) - x\<bar>"
        by simp
      with pk y_small neg False show ?thesis by linarith
    qed
  qed
qed

lemma tiesToEven_mono:
  "real_of_int j \<le> t \<Longrightarrow> j \<le> tiesToEven t"
  "t \<le> real_of_int j \<Longrightarrow> tiesToEven t \<le> j"
proof -
  assume "real_of_int j \<le> t"
  then have "j \<le> \<lfloor>t\<rfloor>" by (simp add: le_floor_iff)
  with tiesToEven_range [of t] show "j \<le> tiesToEven t" by linarith
next
  assume le: "t \<le> real_of_int j"
  show "tiesToEven t \<le> j"
  proof (cases "t = real_of_int j")
    case True
    then show ?thesis by (simp add: tiesToEven_def)
  next
    case False
    with le have "t < real_of_int j" by simp
    then have "\<lfloor>t\<rfloor> < j" by (simp add: floor_less_iff)
    with tiesToEven_range [of t] show ?thesis by linarith
  qed
qed

text \<open>The result of the rounding is a binary64 value.\<close>

lemma round64_binary64:
  assumes r: "round64 x = Some r"
  shows "binary64 r"
proof (cases "x = 0")
  case True
  with r have "r = real_of_int 0 * 2 powr real_of_int 0" by (simp add: round64_def)
  then show ?thesis unfolding binary64_def by (intro exI [of _ 0]) simp
next
  case False
  define k where "k = \<lfloor>log 2 \<bar>x\<bar>\<rfloor>"
  define e0 where "e0 = lastPlace x"
  define g where "g = 2 powr real_of_int e0"
  define t where "t = x / g"
  define n where "n = tiesToEven t"
  have g_pos: "0 < g" by (simp add: g_def)
  have r_eq: "r = real_of_int n * g" and fin: "\<bar>r\<bar> < 2 powr 1024"
    using round64_parts [OF r False] by (simp_all add: n_def t_def g_def e0_def)
  have e0_lo: "- 1074 \<le> e0" and e0_k: "k - 52 \<le> e0"
    by (simp_all add: e0_def lastPlace_def k_def)
  have x_hi: "\<bar>x\<bar> < 2 powr real_of_int (k + 1)" and x_lo: "2 powr real_of_int k \<le> \<bar>x\<bar>"
    using floor_log_bounds [OF False] by (simp_all add: k_def)
  have t_hi: "\<bar>t\<bar> < 2 ^ 53"
  proof -
    have "2 powr real_of_int (k - 52) \<le> g"
      unfolding g_def using e0_k by (intro powr_mono) simp_all
    then have "\<bar>x\<bar> < 2 powr real_of_int (k + 1) \<and> 2 powr 53 * 2 powr real_of_int (k - 52) \<le> 2 powr 53 * g"
      using x_hi by simp
    moreover have "(2::real) powr 53 * 2 powr real_of_int (k - 52) = 2 powr real_of_int (k + 1)"
    proof -
      have "(2::real) powr 53 * 2 powr real_of_int (k - 52) = 2 powr (53 + real_of_int (k - 52))"
        by (rule powr_add [symmetric])
      then show ?thesis by (simp add: add.commute)
    qed
    ultimately have "\<bar>x\<bar> < 2 powr 53 * g" by linarith
    then have "\<bar>x\<bar> / g < 2 powr 53"
      using g_pos by (simp add: field_simps)
    then show ?thesis
      using g_pos by (simp add: t_def)
  qed
  have n_hi: "n \<le> 2 ^ 53" and n_lo: "- (2 ^ 53) \<le> n"
  proof -
    have "t \<le> real_of_int (2 ^ 53)" using t_hi by simp
    then show "n \<le> 2 ^ 53" unfolding n_def by (rule tiesToEven_mono(2))
    have "real_of_int (- (2 ^ 53)) \<le> t" using t_hi by simp
    then show "- (2 ^ 53) \<le> n" unfolding n_def by (rule tiesToEven_mono(1))
  qed
  show ?thesis
  proof (cases "n = 0")
    case True
    then have "r = real_of_int 0 * 2 powr real_of_int 0" by (simp add: r_eq)
    then show ?thesis unfolding binary64_def by (intro exI [of _ 0]) simp
  next
    case nz: False
    have n_big: "- 1074 < e0 \<Longrightarrow> 2 ^ 52 \<le> \<bar>n\<bar>"
    proof -
      assume "- 1074 < e0"
      then have e0_eq: "e0 = k - 52"
        by (simp add: e0_def lastPlace_def k_def max_def split: if_splits)
      have pk: "2 powr real_of_int k = 2 ^ 52 * g"
      proof -
        have "(2::real) powr real_of_int k = 2 powr (52 + real_of_int (k - 52))"
          by simp
        also have "\<dots> = 2 powr 52 * 2 powr real_of_int (k - 52)"
          by (rule powr_add)
        finally show ?thesis
          by (simp add: g_def e0_eq)
      qed
      with x_lo have "2 ^ 52 * g \<le> \<bar>x\<bar>" by simp
      then have t_lo: "2 ^ 52 \<le> \<bar>t\<bar>"
        using g_pos by (simp add: t_def field_simps)
      show "2 ^ 52 \<le> \<bar>n\<bar>"
      proof (cases "0 \<le> t")
        case True
        with t_lo have "real_of_int (2 ^ 52) \<le> t" by simp
        then have "2 ^ 52 \<le> n" unfolding n_def by (rule tiesToEven_mono(1))
        then show ?thesis by simp
      next
        case False
        with t_lo have "t \<le> real_of_int (- (2 ^ 52))" by simp
        then have "n \<le> - (2 ^ 52)" unfolding n_def by (rule tiesToEven_mono(2))
        then show ?thesis by simp
      qed
    qed
    have r_abs: "\<bar>r\<bar> = real_of_int \<bar>n\<bar> * g"
      using g_pos by (simp add: r_eq abs_mult)
    have e0_hi: "e0 \<le> 971"
    proof (rule ccontr)
      assume "\<not> e0 \<le> 971"
      then have big: "972 \<le> e0" by simp
      then have "2 ^ 52 \<le> \<bar>n\<bar>" using n_big by simp
      then have "(2::real) ^ 52 \<le> real_of_int \<bar>n\<bar>"
        by (metis of_int_le_iff of_int_numeral of_int_power)
      moreover have "(2::real) powr 972 \<le> g"
        unfolding g_def using big by (intro powr_mono) simp_all
      ultimately have "(2::real) ^ 52 * 2 powr 972 \<le> real_of_int \<bar>n\<bar> * g"
        by (intro mult_mono) simp_all
      moreover have "(2::real) ^ 52 * 2 powr 972 = 2 powr 1024"
        by simp
      ultimately show False using fin r_abs by linarith
    qed
    show ?thesis
    proof (cases "\<bar>n\<bar> < 2 ^ 53")
      case True
      with e0_lo e0_hi r_eq show ?thesis
        unfolding binary64_def g_def by blast
    next
      case False
      with n_hi n_lo have top: "\<bar>n\<bar> = 2 ^ 53" by linarith
      have e0_hi': "e0 + 1 \<le> 971"
      proof (rule ccontr)
        assume "\<not> e0 + 1 \<le> 971"
        then have big: "971 \<le> e0" by simp
        have "(2::real) powr 971 \<le> g"
          unfolding g_def using big by (intro powr_mono) simp_all
        then have "(2::real) ^ 53 * 2 powr 971 \<le> 2 ^ 53 * g"
          by simp
        moreover have "(2::real) ^ 53 * 2 powr 971 = 2 powr 1024"
          by simp
        moreover have "\<bar>r\<bar> = 2 ^ 53 * g"
          using r_abs top by simp
        ultimately show False using fin by linarith
      qed
      have g2: "2 * g = 2 powr real_of_int (e0 + 1)"
      proof -
        have "(2::real) powr real_of_int (e0 + 1) = 2 powr (1 + real_of_int e0)"
          by (simp add: add.commute)
        also have "\<dots> = 2 powr 1 * 2 powr real_of_int e0"
          by (rule powr_add)
        finally show ?thesis by (simp add: g_def)
      qed
      define m :: int where "m = (if 0 \<le> n then 2 ^ 52 else - (2 ^ 52))"
      have m_abs: "\<bar>m\<bar> < 2 ^ 53" by (simp add: m_def)
      have "real_of_int n = real_of_int m * 2"
        using top by (auto simp: m_def abs_if split: if_splits)
      then have "r = real_of_int m * (2 * g)"
        by (simp add: r_eq)
      then have "r = real_of_int m * 2 powr real_of_int (e0 + 1)"
        by (simp only: g2)
      with m_abs e0_lo e0_hi' show ?thesis
        unfolding binary64_def by (intro exI [of _ m] exI [of _ "e0 + 1"]) simp
    qed
  qed
qed

text \<open>
  Claim C1, as stated, fails in the arithmetic of the code: for the coordinate 1000 and
  the extent 1001 the quotient \<open>1001 / 1000\<close> rounds to \<open>4508103226997866 / 2\<^sup>5\<^sup>2\<close>, and its
  product with 1000 rounds to \<open>8804889115230207 / 2\<^sup>4\<^sup>3\<close>, which is
  \<open>1000.9999999999999\<close> and not 1001.
\<close>

theorem binary64_mapping_counterexample:
  "toPixel64 1000 1001 = Some (8804889115230207 / 2 ^ 43) \<and> toPixel64 1000 1001 \<noteq> Some 1001"
proof -
  have "toPixel64 1000 1001 = Some (8804889115230207 / 2 ^ 43)"
    using round64_scale_1001 round64_product_1001
    by (simp add: toPixel64_def div64_def mul64_def)
  then show ?thesis by simp
qed

text \<open>
  Claim C1, amended. The mapping is \<open>toPixel(c, E) = c * scale\<close> with \<open>scale = E / 1000\<close>
  (\<open>scaleX = width / 1000\<close> for x-values, \<open>scaleY = height / 1000\<close> for y-values), and
  nothing is clamped. In exact arithmetic this is \<open>c * E / 1000\<close>, proportional in \<open>c\<close>,
  with \<open>toPixel(0, E) = 0\<close> and \<open>toPixel(1000, E) = E\<close>; for \<open>E > 0\<close> a coordinate above
  1000 maps beyond \<open>E\<close> and a negative one below 0. In the binary64 arithmetic of the
  code the quotient and the product are each rounded: for an extent of at least one pixel
  \<open>toPixel(0, E) = 0\<close> holds exactly, and for \<open>\<bar>c\<bar> \<ge> 1\<close>, below overflow, the computed
  value is a finite number within the relative error \<open>2\<^sup>-\<^sup>5\<^sup>2 + 2\<^sup>-\<^sup>1\<^sup>0\<^sup>6\<close> of
  \<open>c * E / 1000\<close>.
\<close>

theorem coordinate_mapping:
  "c * scaleX E = c * E / 1000 \<and> c * scaleY E = c * E / 1000 \<and>
   (k * c) * scaleX E = k * (c * scaleX E) \<and>
   0 * scaleX E = 0 \<and> 1000 * scaleX E = E \<and> 1000 * scaleY E = E \<and>
   (0 < E \<and> 1000 < c \<longrightarrow> E < c * scaleX E) \<and>
   (0 < E \<and> c < 0 \<longrightarrow> c * scaleX E < 0) \<and>
   (1 \<le> E \<and> E < 2 powr 1023 \<longrightarrow> toPixel64 0 E = Some 0) \<and>
   (1 \<le> E \<and> 1 \<le> \<bar>c\<bar> \<and> \<bar>c * E / 1000\<bar> < 2 powr 1023 \<longrightarrow>
      (\<exists>p. toPixel64 c E = Some p \<and>
           \<bar>p - c * E / 1000\<bar> \<le> (2 powr - 52 + 2 powr - 106) * \<bar>c * E / 1000\<bar>))"
proof -
  have exact: "c * scaleX E = c * E / 1000 \<and> c * scaleY E = c * E / 1000 \<and>
      (k * c) * scaleX E = k * (c * scaleX E) \<and>
      0 * scaleX E = 0 \<and> 1000 * scaleX E = E \<and> 1000 * scaleY E = E"
    by (simp add: scaleX_def scaleY_def)
  have above: "0 < E \<and> 1000 < c \<longrightarrow> E < c * scaleX E"
  proof
    assume "0 < E \<and> 1000 < c"
    then have "E * 1000 < E * c" by simp
    then show "E < c * scaleX E" by (simp add: scaleX_def mult.commute)
  qed
  have below: "0 < E \<and> c < 0 \<longrightarrow> c * scaleX E < 0"
    by (simp add: scaleX_def mult_neg_pos)
  have zero: "1 \<le> E \<and> E < 2 powr 1023 \<longrightarrow> toPixel64 0 E = Some 0"
    using toPixel64_zero by blast
  have rounded: "1 \<le> E \<and> 1 \<le> \<bar>c\<bar> \<and> \<bar>c * E / 1000\<bar> < 2 powr 1023 \<longrightarrow>
      (\<exists>p. toPixel64 c E = Some p \<and>
           \<bar>p - c * E / 1000\<bar> \<le> (2 powr - 52 + 2 powr - 106) * \<bar>c * E / 1000\<bar>)"
    using toPixel64_bound by blast
  from exact above below zero rounded show ?thesis by blast
qed

theorem coordinate_mapping_witness:
  "(0 < (800::real) \<and> 1000 < (1500::real)) \<and> 800 < 1500 * scaleX 800 \<and>
   (0 < (800::real) \<and> - 10 < (0::real)) \<and> - 10 * scaleX 800 < 0 \<and>
   (1 \<le> (1001::real) \<and> (1001::real) < 2 powr 1023) \<and> toPixel64 0 1001 = Some 0 \<and>
   (1 \<le> (1001::real) \<and> 1 \<le> \<bar>1000::real\<bar> \<and> \<bar>1000 * 1001 / 1000 :: real\<bar> < 2 powr 1023) \<and>
   (\<exists>p. toPixel64 1000 1001 = Some p \<and>
        \<bar>p - 1000 * 1001 / 1000\<bar> \<le> (2 powr - 52 + 2 powr - 106) * \<bar>1000 * 1001 / 1000\<bar>)"
proof -
  have h1: "0 < (800::real) \<and> 1000 < (1500::real)"
    and h2: "0 < (800::real) \<and> - 10 < (0::real)"
    and h3: "1 \<le> (1001::real) \<and> (1001::real) < 2 powr 1023"
    and h4: "1 \<le> (1001::real) \<and> 1 \<le> \<bar>1000::real\<bar> \<and> \<bar>1000 * 1001 / 1000 :: real\<bar> < 2 powr 1023"
    by simp_all
  from coordinate_mapping [of 1500 800 1] h1 have a: "800 < 1500 * scaleX 800"
    by blast
  from coordinate_mapping [of "- 10" 800 1] h2 have b: "- 10 * scaleX 800 < 0"
    by blast
  from coordinate_mapping [of 0 1001 1] h3 have z: "toPixel64 0 1001 = Some 0"
    by blast
  from coordinate_mapping [of 1000 1001 1] h4
  have r: "\<exists>p. toPixel64 1000 1001 = Some p \<and>
        \<bar>p - 1000 * 1001 / 1000\<bar> \<le> (2 powr - 52 + 2 powr - 106) * \<bar>1000 * 1001 / 1000\<bar>"
    by blast
  from h1 h2 h3 h4 a b z r show ?thesis by blast
qed

end
